theory Spec2Isabelle
  imports Main "HOL-Library.Sublist" "HOL-Library.List_Lexorder" "HOL-Library.Char_ord"
begin

section \<open>FalkorDB CSV loader: Python text primitives\<close>

text \<open>
  The loader (\<^verbatim>\<open>falkordb_csv_loader.py\<close>) works on Python \<^verbatim>\<open>str\<close> values. They are
  modelled as \<^typ>\<open>string\<close>, and the text is taken to be ASCII: \<^verbatim>\<open>str.isdigit\<close>,
  \<^verbatim>\<open>str.upper\<close> and \<^verbatim>\<open>str.strip\<close> are given their meaning on ASCII characters only.
\<close>

definition is_digit_char :: "char \<Rightarrow> bool" where
  "is_digit_char c = (c \<in> set ''0123456789'')"

text \<open>\<^verbatim>\<open>s.isdigit()\<close>: non-empty and made of digits only.\<close>

definition isdigit :: "string \<Rightarrow> bool" where
  "isdigit s = (s \<noteq> [] \<and> list_all is_digit_char s)"

definition digit_val :: "char \<Rightarrow> int" where
  "digit_val c = int (of_char c) - 48"

text \<open>\<^verbatim>\<open>int(s)\<close>, at its call sites, all of them guarded by \<^verbatim>\<open>s.isdigit()\<close>.\<close>

definition py_int :: "string \<Rightarrow> int" where
  "py_int s = foldl (\<lambda>a c. 10 * a + digit_val c) 0 s"

text \<open>\<^verbatim>\<open>s.replace('.', '', 1)\<close>: the first dot is removed.\<close>

definition drop_first_dot :: "string \<Rightarrow> string" where
  "drop_first_dot s = remove1 (CHR ''.'') s"

text \<open>\<^verbatim>\<open>s.lstrip('-')\<close>: every leading minus sign is removed.\<close>

definition lstrip_minus :: "string \<Rightarrow> string" where
  "lstrip_minus s = dropWhile (\<lambda>c. c = CHR ''-'') s"

definition is_space_char :: "char \<Rightarrow> bool" where
  "is_space_char c = (of_char c \<in> set [9, 10, 11, 12, 13, 28, 29, 30, 31, 32 :: nat])"

text \<open>\<^verbatim>\<open>s.strip()\<close>.\<close>

definition strip :: "string \<Rightarrow> string" where
  "strip s = rev (dropWhile is_space_char (rev (dropWhile is_space_char s)))"

definition upper_char :: "char \<Rightarrow> char" where
  "upper_char c =
     (case map_of (zip ''abcdefghijklmnopqrstuvwxyz'' ''ABCDEFGHIJKLMNOPQRSTUVWXYZ'') c of
        None \<Rightarrow> c
      | Some u \<Rightarrow> u)"

text \<open>\<^verbatim>\<open>s.upper()\<close>.\<close>

definition upper :: "string \<Rightarrow> string" where
  "upper s = map upper_char s"

text \<open>\<^verbatim>\<open>s.split(sep)\<close> for a one-character separator: always at least one part.\<close>

fun split_on :: "char \<Rightarrow> string \<Rightarrow> string list" where
  "split_on sep [] = [[]]"
| "split_on sep (c # cs) =
     (if c = sep then [] # split_on sep cs
      else (case split_on sep cs of
              [] \<Rightarrow> [[c]]
            | p # ps \<Rightarrow> (c # p) # ps))"

text \<open>\<^verbatim>\<open>sep.join(parts)\<close>.\<close>

fun join :: "string \<Rightarrow> string list \<Rightarrow> string" where
  "join sep [] = []"
| "join sep [x] = x"
| "join sep (x # y # ys) = x @ sep @ join sep (y # ys)"

text \<open>
  \<^verbatim>\<open>s.replace(old, new)\<close>: every non-overlapping occurrence, left to right. The counter
  is the number of characters of a matched occurrence still to be skipped. With an
  empty \<^verbatim>\<open>old\<close> Python puts \<^verbatim>\<open>new\<close> around every character.
\<close>

fun replace_scan :: "string \<Rightarrow> string \<Rightarrow> nat \<Rightarrow> string \<Rightarrow> string" where
  "replace_scan old new k [] = []"
| "replace_scan old new k (c # cs) =
     (if 0 < k then replace_scan old new (k - 1) cs
      else if prefix old (c # cs) then new @ replace_scan old new (length old - 1) cs
      else c # replace_scan old new 0 cs)"

definition replace_all :: "string \<Rightarrow> string \<Rightarrow> string \<Rightarrow> string" where
  "replace_all old new s =
     (if old = [] then new @ concat (map (\<lambda>c. c # new) s)
      else replace_scan old new 0 s)"

text \<open>\<^verbatim>\<open>os.path.basename\<close> and \<^verbatim>\<open>os.path.join\<close> (POSIX, two components).\<close>

definition basename :: "string \<Rightarrow> string" where
  "basename p = rev (takeWhile (\<lambda>c. c \<noteq> CHR ''/'') (rev p))"

definition path_join :: "string \<Rightarrow> string \<Rightarrow> string" where
  "path_join a b =
     (if prefix ''/'' b then b
      else if a = [] \<or> suffix ''/'' a then a @ b
      else a @ ''/'' @ b)"

text \<open>\<^verbatim>\<open>str(n)\<close> for a length.\<close>

function str_of_nat :: "nat \<Rightarrow> string" where
  "str_of_nat n =
     (if n < 10 then [''0123456789'' ! n]
      else str_of_nat (n div 10) @ [''0123456789'' ! (n mod 10)])"
  by pat_completeness auto
termination
  by (relation "measure (\<lambda>n. n)") auto

declare str_of_nat.simps [simp del]

section \<open>Data model\<close>

datatype py_error = ValueError | AttributeError

text \<open>
  The value of a cell after type inference. \<open>Float t\<close> is the double that
  \<^verbatim>\<open>float(t)\<close> returns; the rounding to binary64 is not modelled, the literal is kept.
\<close>

datatype typed_value = Integer int | Float string | String string | Null

text \<open>
  A row as \<^verbatim>\<open>csv.DictReader\<close> yields it for a line with as many cells as the header
  has columns: field names and their texts, in header order. A shorter line, whose
  missing cells the reader sets to \<^verbatim>\<open>None\<close>, and a longer one, which gets the key
  \<^verbatim>\<open>None\<close>, are not rows of this type.
\<close>

type_synonym row = "(string \<times> string) list"

type_synonym props = "(string \<times> typed_value) list"

text \<open>\<^verbatim>\<open>row.get(key, default)\<close>.\<close>

definition row_get :: "row \<Rightarrow> string \<Rightarrow> string \<Rightarrow> string" where
  "row_get r key dflt = (case map_of r key of None \<Rightarrow> dflt | Some v \<Rightarrow> v)"

text \<open>
  \<^verbatim>\<open>d[key] = v\<close> on a Python dict: an existing key keeps its position, a new one goes
  last.
\<close>

fun dict_set :: "string \<Rightarrow> typed_value \<Rightarrow> props \<Rightarrow> props" where
  "dict_set key v [] = [(key, v)]"
| "dict_set key v ((k, w) # kvs) =
     (if k = key then (key, v) # kvs else (k, w) # dict_set key v kvs)"

section \<open>Value typing\<close>

text \<open>
  \<^verbatim>\<open>float(t)\<close> on the texts that can reach it. Both call sites are guarded by a test
  that leaves only digits, minus signs and one dot in \<open>t\<close>; on such a text
  \<^verbatim>\<open>float\<close> accepts an optional sign followed by digits with at most one dot and at
  least one digit, and raises \<^verbatim>\<open>ValueError\<close> otherwise.
\<close>

definition py_float :: "string \<Rightarrow> py_error + typed_value" where
  "py_float t =
     (let body = (if prefix ''-'' t \<or> prefix ''+'' t then tl t else t)
      in if isdigit (drop_first_dot body) then Inr (Float t) else Inl ValueError)"

text \<open>The node loader's inference (\<^verbatim>\<open>load_nodes_batch\<close>, first pass over a row).\<close>

definition infer_node_value :: "string \<Rightarrow> py_error + typed_value" where
  "infer_node_value v =
     (if v \<noteq> [] then
        (if isdigit v then Inr (Integer (py_int v))
         else if isdigit (lstrip_minus (drop_first_dot v)) then py_float v
         else Inr (String v))
      else Inr Null)"

text \<open>
  The edge loader's inference (\<^verbatim>\<open>load_edges_batch\<close>). The loader calls it on
  non-empty texts only; an empty text leaves no property at all, which is \<open>Null\<close> here.
\<close>

definition infer_edge_value :: "string \<Rightarrow> py_error + typed_value" where
  "infer_edge_value v =
     (if v \<noteq> [] then
        (if isdigit v then Inr (Integer (py_int v))
         else if isdigit (drop_first_dot v) then py_float v
         else Inr (String v))
      else Inr Null)"

section \<open>The store and the loader object\<close>

text \<open>
  Every call that reaches the graph store is recorded as an event, tagged with the
  statement of the source that makes it. \<open>GraphQuery site g q params\<close> is
  \<^verbatim>\<open>self.graph.query(q, params)\<close> on the handle obtained from
  \<^verbatim>\<open>select_graph(g)\<close>; \<open>RawCommand site args\<close> is
  \<^verbatim>\<open>self.db.execute_command(*args)\<close>.
\<close>

datatype call_site =
    IdIndex | DescriptorIndex | SupportingIndex | ConstraintCreate
  | NodeBulk | NodeRow | EdgeBulk | EdgeRow

datatype node_record = NodeRecord (nr_id: typed_value) (nr_props: props)

datatype edge_record =
  EdgeRecord (er_source_id: typed_value) (er_target_id: typed_value)
             (er_source_label: string) (er_target_label: string) (er_props: props)

datatype payload = NodeBatch "node_record list" | EdgeBatch "edge_record list"

datatype event =
    GraphQuery call_site string string "payload option"
  | RawCommand call_site "string list"

fun event_site :: "event \<Rightarrow> call_site" where
  "event_site (GraphQuery site g q params) = site"
| "event_site (RawCommand site args) = site"

text \<open>
  The graph an event is addressed to: the selected graph of a query, the key argument
  of \<^verbatim>\<open>GRAPH.CONSTRAINT CREATE key ...\<close>.
\<close>

fun event_target :: "event \<Rightarrow> string option" where
  "event_target (GraphQuery site g q params) = Some g"
| "event_target (RawCommand site args) =
     (case args of a # b # key # rest \<Rightarrow> Some key | _ \<Rightarrow> None)"

text \<open>
  The collaborators of the loader: the directory listing, the file reader
  (\<^verbatim>\<open>read_csv_file\<close>, which returns no rows when the file cannot be read), the store,
  which accepts a call or raises on it depending on what it has received so far, and
  Python's \<^verbatim>\<open>repr\<close> of a typed value, used in the per-row query texts.
\<close>

record env =
  listdir :: "string \<Rightarrow> string list"
  isdir :: "string \<Rightarrow> bool"
  path_exists :: "string \<Rightarrow> bool"
  read_csv_file :: "string \<Rightarrow> row list"
  store_accepts :: "event list \<Rightarrow> event \<Rightarrow> bool"
  repr_of :: "typed_value \<Rightarrow> string"

text \<open>
  The fields of \<^verbatim>\<open>FalkorDBCSVLoader\<close>, and \<open>issued\<close>: the calls made to the store so
  far, oldest first. Progress messages and the counters that feed them are left out.
\<close>

record loader =
  graph_name :: string
  csv_dir :: string
  graph :: "string option"
  merge_mode :: bool
  multi_graph_mode :: bool
  issued :: "event list"

text \<open>
  The constructor. In single-graph mode the graph is selected at once; in multi-graph
  mode the field is left at \<^verbatim>\<open>None\<close>, to be set per tenant.
\<close>

definition new_loader :: "string \<Rightarrow> string \<Rightarrow> bool \<Rightarrow> bool \<Rightarrow> loader" where
  "new_loader gname dir merge multi =
     \<lparr>graph_name = gname, csv_dir = dir,
      graph = (if \<not> multi then Some gname else None),
      merge_mode = merge, multi_graph_mode = multi, issued = []\<rparr>"

datatype outcome = Returned | Raised py_error

text \<open>
  \<^verbatim>\<open>self.graph.query(q, params)\<close>: \<open>True\<close> when the call returns, \<open>False\<close> when it
  raises. Without a selected graph nothing is sent (\<^verbatim>\<open>AttributeError\<close> on \<^verbatim>\<open>None\<close>).
\<close>

definition graph_query ::
  "env \<Rightarrow> call_site \<Rightarrow> string \<Rightarrow> payload option \<Rightarrow> loader \<Rightarrow> bool \<times> loader" where
  "graph_query E site q params s =
     (case graph s of
        None \<Rightarrow> (False, s)
      | Some g \<Rightarrow>
          (store_accepts E (issued s) (GraphQuery site g q params),
           s\<lparr>issued := issued s @ [GraphQuery site g q params]\<rparr>))"

text \<open>\<^verbatim>\<open>self.db.execute_command(*args)\<close>.\<close>

definition execute_command ::
  "env \<Rightarrow> call_site \<Rightarrow> string list \<Rightarrow> loader \<Rightarrow> bool \<times> loader" where
  "execute_command E site args s =
     (store_accepts E (issued s) (RawCommand site args),
      s\<lparr>issued := issued s @ [RawCommand site args]\<rparr>)"

section \<open>Schema provisioner\<close>

definition is_node_file :: "string \<Rightarrow> bool" where
  "is_node_file f = (prefix ''nodes_'' f \<and> suffix ''.csv'' f)"

definition is_edge_file :: "string \<Rightarrow> bool" where
  "is_edge_file f = (prefix ''edges_'' f \<and> suffix ''.csv'' f)"

text \<open>The label of a node file: the name without its affixes, colons sanitized.\<close>

definition node_label :: "string \<Rightarrow> string" where
  "node_label filename =
     replace_all '':'' ''_'' (replace_all ''.csv'' '''' (replace_all ''nodes_'' '''' filename))"

text \<open>
  \<^verbatim>\<open>create_id_indexes_for_all_labels\<close>. Each query sits in its own \<^verbatim>\<open>try\<close>; whatever
  the store answers, the loop goes on.
\<close>

definition create_id_indexes_for_all_labels :: "env \<Rightarrow> loader \<Rightarrow> loader" where
  "create_id_indexes_for_all_labels E s =
     (if \<not> path_exists E (csv_dir s) then s
      else fold (\<lambda>node_file s'.
                   snd (graph_query E IdIndex
                          (''CREATE INDEX ON :'' @ node_label node_file @ ''(id)'') None s'))
             (filter is_node_file (listdir E (csv_dir s))) s)"

text \<open>\<^verbatim>\<open>[l.strip() for l in text.split(';') if l.strip()]\<close>.\<close>

definition split_list :: "string \<Rightarrow> string list" where
  "split_list t = filter (\<lambda>l. l \<noteq> []) (map strip (split_on (CHR '';'') t))"

definition index_query :: "string \<Rightarrow> string \<Rightarrow> string" where
  "index_query label prop = ''CREATE INDEX ON :'' @ label @ ''('' @ prop @ '')''"

text \<open>
  The test that makes \<^verbatim>\<open>create_indexes_from_csv\<close> pass over a descriptor row, and the
  rest of the loop body for one row.
\<close>

definition index_row_skipped :: "row \<Rightarrow> bool" where
  "index_row_skipped index =
     (strip (row_get index ''labels'' '''') = []
      \<or> strip (row_get index ''properties'' '''') = []
      \<or> upper (row_get index ''type'' '''') = ''LOOKUP''
      \<or> row_get index ''uniqueness'' ''NON_UNIQUE'' = ''UNIQUE'')"

definition create_index_row :: "env \<Rightarrow> row \<Rightarrow> loader \<Rightarrow> loader" where
  "create_index_row E index s =
     (if index_row_skipped index then s
      else fold (\<lambda>label s'.
                   fold (\<lambda>prop s''.
                           snd (graph_query E DescriptorIndex (index_query label prop) None s''))
                     (split_list (strip (row_get index ''properties'' ''''))) s')
             (split_list (strip (row_get index ''labels'' ''''))) s)"

definition create_indexes_from_csv :: "env \<Rightarrow> loader \<Rightarrow> loader" where
  "create_indexes_from_csv E s =
     (if \<not> path_exists E (path_join (csv_dir s) ''indexes.csv'') then s
      else fold (create_index_row E)
             (read_csv_file E (path_join (csv_dir s) ''indexes.csv'')) s)"

definition supporting_index_query :: "string \<Rightarrow> string list \<Rightarrow> string" where
  "supporting_index_query label prop_list =
     (case prop_list of
        [p] \<Rightarrow> ''CREATE INDEX FOR (n:'' @ label @ '') ON (n.'' @ p @ '')''
      | _ \<Rightarrow> ''CREATE INDEX FOR (n:'' @ label @ '') ON (''
               @ join '', '' (map (\<lambda>prop. ''n.'' @ prop) prop_list) @ '')'')"

definition supporting_index_row :: "env \<Rightarrow> row \<Rightarrow> loader \<Rightarrow> loader" where
  "supporting_index_row E constraint s =
     (if strip (row_get constraint ''labels'' '''') = []
         \<or> strip (row_get constraint ''properties'' '''') = []
      then s
      else if sublist ''UNIQUE'' (upper (row_get constraint ''type'' ''''))
      then fold (\<lambda>label s'.
                   snd (graph_query E SupportingIndex
                          (supporting_index_query label
                             (split_list (strip (row_get constraint ''properties'' ''''))))
                          None s'))
             (split_list (strip (row_get constraint ''labels'' ''''))) s
      else s)"

definition create_supporting_indexes_for_constraints :: "env \<Rightarrow> loader \<Rightarrow> loader" where
  "create_supporting_indexes_for_constraints E s =
     (if \<not> path_exists E (path_join (csv_dir s) ''constraints.csv'') then s
      else fold (supporting_index_row E)
             (read_csv_file E (path_join (csv_dir s) ''constraints.csv'')) s)"

text \<open>
  The arguments of the raw command of \<^verbatim>\<open>create_constraints_from_csv\<close>. The key is
  the loader's \<^verbatim>\<open>graph_name\<close> field.
\<close>

definition constraint_command_args ::
  "string \<Rightarrow> string \<Rightarrow> string \<Rightarrow> string list \<Rightarrow> string list" where
  "constraint_command_args gname entity_type label prop_list =
     [''GRAPH.CONSTRAINT'', ''CREATE'', gname, ''UNIQUE'', entity_type, label,
      ''PROPERTIES'', str_of_nat (length prop_list)] @ prop_list"

definition constraint_row :: "env \<Rightarrow> row \<Rightarrow> loader \<Rightarrow> loader" where
  "constraint_row E constraint s =
     (if strip (row_get constraint ''labels'' '''') = []
         \<or> strip (row_get constraint ''properties'' '''') = []
      then s
      else fold (\<lambda>label s'.
                   if sublist ''UNIQUE'' (upper (row_get constraint ''type'' ''''))
                   then snd (execute_command E ConstraintCreate
                               (constraint_command_args (graph_name s')
                                  (upper (row_get constraint ''entity_type'' ''NODE'')) label
                                  (split_list (strip (row_get constraint ''properties'' ''''))))
                               s')
                   else s')
             (split_list (strip (row_get constraint ''labels'' ''''))) s)"

definition create_constraints_from_csv :: "env \<Rightarrow> loader \<Rightarrow> loader" where
  "create_constraints_from_csv E s =
     (if \<not> path_exists E (path_join (csv_dir s) ''constraints.csv'') then s
      else fold (constraint_row E)
             (read_csv_file E (path_join (csv_dir s) ''constraints.csv'')) s)"

section \<open>Node loader\<close>

text \<open>
  A loop body that may raise, run over a list: the first exception ends the loop and
  leaves through the caller.
\<close>

fun run_each ::
  "('a \<Rightarrow> loader \<Rightarrow> outcome \<times> loader) \<Rightarrow> 'a list \<Rightarrow> loader \<Rightarrow> outcome \<times> loader" where
  "run_each f [] s = (Returned, s)"
| "run_each f (x # xs) s =
     (case f x s of
        (Returned, s') \<Rightarrow> run_each f xs s'
      | (Raised e, s') \<Rightarrow> (Raised e, s'))"

text \<open>
  \<^verbatim>\<open>for i in range(0, len(rows), batch_size): batch = rows[i:i + batch_size]\<close>. A
  zero step makes \<^verbatim>\<open>range\<close> raise, a negative one gives no batch.
\<close>

function chunks :: "nat \<Rightarrow> 'a list \<Rightarrow> 'a list list" where
  "chunks n xs = (if n = 0 \<or> xs = [] then [] else take n xs # chunks n (drop n xs))"
  by pat_completeness auto
termination
  by (relation "measure (\<lambda>(n, xs). length xs)") auto

declare chunks.simps [simp del]

definition batches :: "int \<Rightarrow> 'a list \<Rightarrow> py_error + 'a list list" where
  "batches batch_size rows =
     (if batch_size = 0 then Inl ValueError
      else if batch_size < 0 then Inr []
      else Inr (chunks (nat batch_size) rows))"

text \<open>
  The fallback of both loaders: every per-row query is sent, each in its own
  \<^verbatim>\<open>try\<close>.
\<close>

definition run_fallback :: "env \<Rightarrow> call_site \<Rightarrow> string list \<Rightarrow> loader \<Rightarrow> loader" where
  "run_fallback E site query_parts s =
     fold (\<lambda>query s'. snd (graph_query E site query None s')) query_parts s"

text \<open>First pass over a node row: every field but \<^verbatim>\<open>id\<close> and \<^verbatim>\<open>labels\<close> is typed.\<close>

fun node_row_properties :: "row \<Rightarrow> props \<Rightarrow> py_error + props" where
  "node_row_properties [] properties = Inr properties"
| "node_row_properties ((key, v) # items) properties =
     (if key \<notin> set [''id'', ''labels''] then
        (case infer_node_value v of
           Inl e \<Rightarrow> Inl e
         | Inr tv \<Rightarrow> node_row_properties items (dict_set key tv properties))
      else node_row_properties items properties)"

definition prop_str_of :: "env \<Rightarrow> props \<Rightarrow> string" where
  "prop_str_of E properties =
     join '', '' (map (\<lambda>(k, tv). k @ '': '' @ repr_of E tv)
                    (filter (\<lambda>(k, tv). tv \<noteq> Null) properties))"

text \<open>An identifier in a query text: bare when numeric, quoted otherwise.\<close>

definition id_literal :: "string \<Rightarrow> string" where
  "id_literal t = (if isdigit t then t else [CHR 0x27] @ t @ [CHR 0x27])"

definition node_row_query :: "env \<Rightarrow> bool \<Rightarrow> string \<Rightarrow> row \<Rightarrow> py_error + string" where
  "node_row_query E merge label r =
     (case node_row_properties r [] of
        Inl e \<Rightarrow> Inl e
      | Inr properties \<Rightarrow>
          Inr ((if merge then ''MERGE'' else ''CREATE'') @ '' (:'' @ label @ '' {id: ''
               @ id_literal (row_get r ''id'' '''')
               @ (if prop_str_of E properties \<noteq> [] then '', '' @ prop_str_of E properties
                  else [])
               @ ''})''))"

fun node_query_parts :: "env \<Rightarrow> bool \<Rightarrow> string \<Rightarrow> row list \<Rightarrow> py_error + string list" where
  "node_query_parts E merge label [] = Inr []"
| "node_query_parts E merge label (r # rows) =
     (case node_row_query E merge label r of
        Inl e \<Rightarrow> Inl e
      | Inr q \<Rightarrow>
          (case node_query_parts E merge label rows of
             Inl e \<Rightarrow> Inl e
           | Inr qs \<Rightarrow> Inr (q # qs)))"

text \<open>Second pass, for the bulk payload: empty texts are passed over.\<close>

fun node_bulk_properties :: "row \<Rightarrow> props \<Rightarrow> py_error + props" where
  "node_bulk_properties [] properties = Inr properties"
| "node_bulk_properties ((key, v) # items) properties =
     (if key \<notin> set [''id'', ''labels''] \<and> v \<noteq> [] then
        (case infer_node_value v of
           Inl e \<Rightarrow> Inl e
         | Inr tv \<Rightarrow> node_bulk_properties items (dict_set key tv properties))
      else node_bulk_properties items properties)"

definition typed_id :: "string \<Rightarrow> typed_value" where
  "typed_id t = (if isdigit t then Integer (py_int t) else String t)"

definition node_record_of :: "row \<Rightarrow> py_error + node_record" where
  "node_record_of r =
     (case node_bulk_properties r [] of
        Inl e \<Rightarrow> Inl e
      | Inr properties \<Rightarrow> Inr (NodeRecord (typed_id (row_get r ''id'' '''')) properties))"

fun node_batch_data :: "row list \<Rightarrow> py_error + node_record list" where
  "node_batch_data [] = Inr []"
| "node_batch_data (r # rows) =
     (case node_record_of r of
        Inl e \<Rightarrow> Inl e
      | Inr d \<Rightarrow>
          (case node_batch_data rows of
             Inl e \<Rightarrow> Inl e
           | Inr ds \<Rightarrow> Inr (d # ds)))"

definition node_unwind_query :: "bool \<Rightarrow> string \<Rightarrow> string" where
  "node_unwind_query merge label =
     (if merge then ''UNWIND $batch AS row MERGE (n:'' @ label @ '' {id: row.id}) SET n += row.props''
      else ''UNWIND $batch AS row CREATE (n:'' @ label @ '') SET n.id = row.id, n += row.props'')"

text \<open>
  One iteration of the batch loop of \<^verbatim>\<open>load_nodes_batch\<close>. The per-row queries are
  built outside the \<^verbatim>\<open>try\<close>; the payload and the bulk submission are inside it, and
  any exception there leads to the fallback.
\<close>

definition load_node_batch :: "env \<Rightarrow> string \<Rightarrow> row list \<Rightarrow> loader \<Rightarrow> outcome \<times> loader" where
  "load_node_batch E label batch s =
     (case node_query_parts E (merge_mode s) label batch of
        Inl e \<Rightarrow> (Raised e, s)
      | Inr query_parts \<Rightarrow>
          (case node_batch_data batch of
             Inl e \<Rightarrow> (Returned, run_fallback E NodeRow query_parts s)
           | Inr batch_data \<Rightarrow>
               (let r = graph_query E NodeBulk (node_unwind_query (merge_mode s) label)
                          (Some (NodeBatch batch_data)) s
                in if fst r then (Returned, snd r)
                   else (Returned, run_fallback E NodeRow query_parts (snd r)))))"

definition load_nodes_batch :: "env \<Rightarrow> string \<Rightarrow> int \<Rightarrow> loader \<Rightarrow> outcome \<times> loader" where
  "load_nodes_batch E file_path batch_size s =
     (if read_csv_file E file_path = [] then (Returned, s)
      else (case batches batch_size (read_csv_file E file_path) of
              Inl e \<Rightarrow> (Raised e, s)
            | Inr bs \<Rightarrow> run_each (load_node_batch E (node_label (basename file_path))) bs s))"

section \<open>Edge loader\<close>

definition edge_reserved :: "string list" where
  "edge_reserved = [''source'', ''target'', ''type'', ''source_label'', ''target_label'']"

text \<open>A key of the form \<^verbatim>\<open>X:X\<close> is cut down to \<^verbatim>\<open>X\<close>.\<close>

definition clean_key :: "string \<Rightarrow> string" where
  "clean_key key =
     (if CHR '':'' \<in> set key then
        (case split_on (CHR '':'') key of
           [a, b] \<Rightarrow> if a = b then a else key
         | _ \<Rightarrow> key)
      else key)"

text \<open>The property loop of an edge row; both passes of the loader run the same one.\<close>

fun edge_properties :: "row \<Rightarrow> props \<Rightarrow> py_error + props" where
  "edge_properties [] properties = Inr properties"
| "edge_properties ((key, v) # items) properties =
     (if key \<notin> set edge_reserved \<and> v \<noteq> [] then
        (case infer_edge_value v of
           Inl e \<Rightarrow> Inl e
         | Inr tv \<Rightarrow> edge_properties items (dict_set (clean_key key) tv properties))
      else edge_properties items properties)"

text \<open>\<^verbatim>\<open>label.split(':')[0]\<close>.\<close>

definition first_segment :: "string \<Rightarrow> string" where
  "first_segment l = (case split_on (CHR '':'') l of [] \<Rightarrow> [] | p # ps \<Rightarrow> p)"

definition set_clause :: "env \<Rightarrow> props \<Rightarrow> string" where
  "set_clause E properties =
     (if properties \<noteq> [] then
        '' SET '' @ join '', '' (map (\<lambda>(k, tv). ''r.'' @ k @ '' = '' @ repr_of E tv) properties)
      else [])"

definition create_clause :: "env \<Rightarrow> string \<Rightarrow> props \<Rightarrow> string" where
  "create_clause E rel_type properties =
     ''CREATE (a)-[:'' @ rel_type
     @ (if join '', '' (map (\<lambda>(k, tv). k @ '': '' @ repr_of E tv) properties) \<noteq> []
        then '' {'' @ join '', '' (map (\<lambda>(k, tv). k @ '': '' @ repr_of E tv) properties) @ ''}''
        else [])
     @ '']->(b)''"

text \<open>The per-row query of an edge row that has both endpoints.\<close>

definition edge_row_query :: "env \<Rightarrow> bool \<Rightarrow> string \<Rightarrow> row \<Rightarrow> py_error + string" where
  "edge_row_query E merge rel_type r =
     (case edge_properties r [] of
        Inl e \<Rightarrow> Inl e
      | Inr properties \<Rightarrow>
          (let source_id_str = id_literal (row_get r ''source'' '''');
               target_id_str = id_literal (row_get r ''target'' '''');
               source_label = strip (row_get r ''source_label'' '''');
               target_label = strip (row_get r ''target_label'' '''')
           in if source_label \<noteq> [] \<and> target_label \<noteq> [] then
                (if merge then
                   Inr (''MERGE (a:'' @ first_segment source_label @ '' {id: '' @ source_id_str @ ''}) ''
                        @ ''MERGE (b:'' @ first_segment target_label @ '' {id: '' @ target_id_str @ ''}) ''
                        @ ''MERGE (a)-[r:'' @ rel_type @ '']->(b)'' @ set_clause E properties)
                 else
                   Inr (''MATCH (a:'' @ first_segment source_label @ '' {id: '' @ source_id_str
                        @ ''}), (b:'' @ first_segment target_label @ '' {id: '' @ target_id_str @ ''})''
                        @ '' '' @ create_clause E rel_type properties))
              else
                (if merge then
                   Inr (''MERGE (a {id: '' @ source_id_str @ ''}) ''
                        @ ''MERGE (b {id: '' @ target_id_str @ ''}) ''
                        @ ''MERGE (a)-[r:'' @ rel_type @ '']->(b)'' @ set_clause E properties)
                 else
                   Inr (''MATCH (a {id: '' @ source_id_str @ ''}), (b {id: '' @ target_id_str @ ''})''
                        @ '' '' @ create_clause E rel_type properties))))"

text \<open>A row without a source or without a target is passed over (\<^verbatim>\<open>continue\<close>).\<close>

definition lacks_endpoint :: "row \<Rightarrow> bool" where
  "lacks_endpoint r = (row_get r ''source'' '''' = [] \<or> row_get r ''target'' '''' = [])"

fun edge_query_parts :: "env \<Rightarrow> bool \<Rightarrow> string \<Rightarrow> row list \<Rightarrow> py_error + string list" where
  "edge_query_parts E merge rel_type [] = Inr []"
| "edge_query_parts E merge rel_type (r # rows) =
     (if lacks_endpoint r then edge_query_parts E merge rel_type rows
      else (case edge_row_query E merge rel_type r of
              Inl e \<Rightarrow> Inl e
            | Inr q \<Rightarrow>
                (case edge_query_parts E merge rel_type rows of
                   Inl e \<Rightarrow> Inl e
                 | Inr qs \<Rightarrow> Inr (q # qs))))"

text \<open>
  \<^verbatim>\<open>label.split(':')[0] if label and ':' in label else label\<close>, the label of a payload
  record.
\<close>

definition record_label :: "string \<Rightarrow> string" where
  "record_label l = (if l \<noteq> [] \<and> CHR '':'' \<in> set l then first_segment l else l)"

definition edge_record_of :: "row \<Rightarrow> py_error + edge_record" where
  "edge_record_of r =
     (case edge_properties r [] of
        Inl e \<Rightarrow> Inl e
      | Inr properties \<Rightarrow>
          Inr (EdgeRecord (typed_id (row_get r ''source'' '''')) (typed_id (row_get r ''target'' ''''))
                 (record_label (strip (row_get r ''source_label'' '''')))
                 (record_label (strip (row_get r ''target_label'' '''')))
                 properties))"

fun edge_batch_data :: "row list \<Rightarrow> py_error + edge_record list" where
  "edge_batch_data [] = Inr []"
| "edge_batch_data (r # rows) =
     (if lacks_endpoint r then edge_batch_data rows
      else (case edge_record_of r of
              Inl e \<Rightarrow> Inl e
            | Inr d \<Rightarrow>
                (case edge_batch_data rows of
                   Inl e \<Rightarrow> Inl e
                 | Inr ds \<Rightarrow> Inr (d # ds))))"

text \<open>
  The bulk query texts: triple-quoted f-strings, each line behind a line break and the
  indentation of the source (28 blanks).
\<close>

definition query_line :: "string \<Rightarrow> string" where
  "query_line t = CHR 0x0A # replicate 28 (CHR '' '') @ t"

definition labelled_unwind_query :: "bool \<Rightarrow> string \<Rightarrow> string \<Rightarrow> string \<Rightarrow> string" where
  "labelled_unwind_query merge rel_type source_label target_label =
     (if merge then
        query_line ''UNWIND $batch AS row''
        @ query_line (''MERGE (a:'' @ source_label @ '' {id: row.source_id})'')
        @ query_line (''MERGE (b:'' @ target_label @ '' {id: row.target_id})'')
        @ query_line (''MERGE (a)-[r:'' @ rel_type @ '']->(b)'')
        @ query_line ''SET r += row.props''
        @ query_line []
      else
        query_line ''UNWIND $batch AS row''
        @ query_line (''MATCH (a:'' @ source_label @ '' {id: row.source_id})'')
        @ query_line (''MATCH (b:'' @ target_label @ '' {id: row.target_id})'')
        @ query_line (''CREATE (a)-[r:'' @ rel_type @ '']->(b)'')
        @ query_line ''SET r += row.props''
        @ query_line [])"

definition plain_unwind_query :: "bool \<Rightarrow> string \<Rightarrow> string" where
  "plain_unwind_query merge rel_type =
     (if merge then
        query_line ''UNWIND $batch AS row''
        @ query_line ''MERGE (a {id: row.source_id})''
        @ query_line ''MERGE (b {id: row.target_id})''
        @ query_line (''MERGE (a)-[r:'' @ rel_type @ '']->(b)'')
        @ query_line ''SET r += row.props''
        @ query_line []
      else
        query_line ''UNWIND $batch AS row''
        @ query_line ''MATCH (a {id: row.source_id})''
        @ query_line ''MATCH (b {id: row.target_id})''
        @ query_line (''CREATE (a)-[r:'' @ rel_type @ '']->(b)'')
        @ query_line ''SET r += row.props''
        @ query_line [])"

text \<open>The query for a non-empty payload, chosen by \<^verbatim>\<open>batch_data[0]\<close>.\<close>

definition edge_unwind_query :: "bool \<Rightarrow> string \<Rightarrow> edge_record \<Rightarrow> string" where
  "edge_unwind_query merge rel_type first =
     (if er_source_label first \<noteq> [] \<and> er_target_label first \<noteq> []
      then labelled_unwind_query merge rel_type (er_source_label first) (er_target_label first)
      else plain_unwind_query merge rel_type)"

text \<open>One iteration of the batch loop of \<^verbatim>\<open>load_edges_batch\<close>.\<close>

definition load_edge_batch :: "env \<Rightarrow> string \<Rightarrow> row list \<Rightarrow> loader \<Rightarrow> outcome \<times> loader" where
  "load_edge_batch E rel_type batch s =
     (case edge_query_parts E (merge_mode s) rel_type batch of
        Inl e \<Rightarrow> (Raised e, s)
      | Inr query_parts \<Rightarrow>
          (case edge_batch_data batch of
             Inl e \<Rightarrow> (Returned, run_fallback E EdgeRow query_parts s)
           | Inr [] \<Rightarrow> (Returned, s)
           | Inr (first # others) \<Rightarrow>
               (let r = graph_query E EdgeBulk (edge_unwind_query (merge_mode s) rel_type first)
                          (Some (EdgeBatch (first # others))) s
                in if fst r then (Returned, snd r)
                   else (Returned, run_fallback E EdgeRow query_parts (snd r)))))"

definition edge_rel_type :: "string \<Rightarrow> string" where
  "edge_rel_type filename = replace_all ''.csv'' '''' (replace_all ''edges_'' '''' filename)"

definition load_edges_batch :: "env \<Rightarrow> string \<Rightarrow> int \<Rightarrow> loader \<Rightarrow> outcome \<times> loader" where
  "load_edges_batch E file_path batch_size s =
     (if read_csv_file E file_path = [] then (Returned, s)
      else (case batches batch_size (read_csv_file E file_path) of
              Inl e \<Rightarrow> (Raised e, s)
            | Inr bs \<Rightarrow> run_each (load_edge_batch E (edge_rel_type (basename file_path))) bs s))"

section \<open>Pipelines\<close>

text \<open>\<^verbatim>\<open>_load_single_graph_csvs\<close>.\<close>

definition provision_schema :: "env \<Rightarrow> loader \<Rightarrow> loader" where
  "provision_schema E s =
     create_constraints_from_csv E
       (create_supporting_indexes_for_constraints E
          (create_indexes_from_csv E
             (create_id_indexes_for_all_labels E s)))"

definition load_node_files :: "env \<Rightarrow> int \<Rightarrow> string list \<Rightarrow> loader \<Rightarrow> outcome \<times> loader" where
  "load_node_files E batch_size node_files s =
     run_each (\<lambda>node_file s'. load_nodes_batch E (path_join (csv_dir s') node_file) batch_size s')
       node_files s"

definition load_edge_files :: "env \<Rightarrow> int \<Rightarrow> string list \<Rightarrow> loader \<Rightarrow> outcome \<times> loader" where
  "load_edge_files E batch_size edge_files s =
     run_each (\<lambda>edge_file s'. load_edges_batch E (path_join (csv_dir s') edge_file) batch_size s')
       edge_files s"

definition load_single_graph_csvs :: "env \<Rightarrow> int \<Rightarrow> loader \<Rightarrow> outcome \<times> loader" where
  "load_single_graph_csvs E batch_size s =
     (let node_files = filter is_node_file (listdir E (csv_dir s));
          edge_files = filter is_edge_file (listdir E (csv_dir s))
      in case load_node_files E batch_size node_files (provision_schema E s) of
           (Raised e, s') \<Rightarrow> (Raised e, s')
         | (Returned, s') \<Rightarrow> load_edge_files E batch_size edge_files s')"

text \<open>
  One iteration of the tenant loop of \<^verbatim>\<open>_load_multi_graph_csvs\<close>: the graph is
  selected, the directory field is redirected, the pipeline runs inside
  \<^verbatim>\<open>try ... except Exception ... finally\<close>; an exception of the pipeline is caught
  there, and on both ways out the \<^verbatim>\<open>finally\<close> puts the directory back.
\<close>

definition load_tenant :: "env \<Rightarrow> int \<Rightarrow> string \<Rightarrow> loader \<Rightarrow> loader" where
  "load_tenant E batch_size tenant_dir s =
     (let tenant_path = path_join (csv_dir s) tenant_dir;
          tenant_name = replace_all ''tenant_'' '''' tenant_dir;
          target = graph_name s @ ''_'' @ tenant_name;
          original_csv_dir = csv_dir s
      in case load_single_graph_csvs E batch_size
                (s\<lparr>graph := Some target, csv_dir := tenant_path\<rparr>) of
           (Returned, s') \<Rightarrow> s'\<lparr>csv_dir := original_csv_dir\<rparr>
         | (Raised e, s') \<Rightarrow> s'\<lparr>csv_dir := original_csv_dir\<rparr>)"

definition tenant_dirs :: "env \<Rightarrow> string \<Rightarrow> string list" where
  "tenant_dirs E root =
     filter (\<lambda>d. isdir E (path_join root d) \<and> prefix ''tenant_'' d) (listdir E root)"

definition load_multi_graph_csvs :: "env \<Rightarrow> int \<Rightarrow> loader \<Rightarrow> outcome \<times> loader" where
  "load_multi_graph_csvs E batch_size s =
     (if tenant_dirs E (csv_dir s) = [] then load_single_graph_csvs E batch_size s
      else (Returned, fold (load_tenant E batch_size) (sort (tenant_dirs E (csv_dir s))) s))"

definition load_all_csvs :: "env \<Rightarrow> int \<Rightarrow> loader \<Rightarrow> outcome \<times> loader" where
  "load_all_csvs E batch_size s =
     (if \<not> path_exists E (csv_dir s) then (Returned, s)
      else if multi_graph_mode s then load_multi_graph_csvs E batch_size s
      else load_single_graph_csvs E batch_size s)"

section \<open>Phases of a pipeline run\<close>

text \<open>
  The place of a call in \<^verbatim>\<open>_load_single_graph_csvs\<close>: the four provisioning steps,
  then node data, then edge data.
\<close>

fun site_phase :: "call_site \<Rightarrow> nat" where
  "site_phase IdIndex = 0"
| "site_phase DescriptorIndex = 1"
| "site_phase SupportingIndex = 2"
| "site_phase ConstraintCreate = 3"
| "site_phase NodeBulk = 4"
| "site_phase NodeRow = 4"
| "site_phase EdgeBulk = 5"
| "site_phase EdgeRow = 5"

definition event_phase :: "event \<Rightarrow> nat" where
  "event_phase ev = site_phase (event_site ev)"

text \<open>
  \<open>emits Q s s'\<close>: the state \<open>s'\<close> is \<open>s\<close> after some more calls to the store, all of
  them satisfying \<open>Q\<close>; nothing else of the loader has changed.
\<close>

definition emits :: "(event \<Rightarrow> bool) \<Rightarrow> loader \<Rightarrow> loader \<Rightarrow> bool" where
  "emits Q s s' = (\<exists>ops. s' = s\<lparr>issued := issued s @ ops\<rparr> \<and> list_all Q ops)"

section \<open>A sample export\<close>

text \<open>
  A source root with two tenant directories. Tenant \<^verbatim>\<open>a\<close> has one node file, one
  edge file and both descriptor files; tenant \<^verbatim>\<open>b\<close> has a node file with a cell the
  node loader cannot type.
\<close>

definition sample_person_rows :: "row list" where
  "sample_person_rows =
     [[(''id'', ''1''), (''labels'', ''Person''), (''name'', ''Alice''), (''age'', ''30'')],
      [(''id'', ''2''), (''labels'', ''Person''), (''name'', ''Bob''), (''age'', '''')]]"

definition sample_knows_rows :: "row list" where
  "sample_knows_rows =
     [[(''source'', ''1''), (''target'', ''2''), (''source_label'', ''Person''),
       (''target_label'', ''Person:Admin''), (''weight'', ''0.5'')],
      [(''source'', ''''), (''target'', ''2''), (''source_label'', ''Person''),
       (''target_label'', ''Person''), (''weight'', ''1'')],
      [(''source'', ''2''), (''target'', ''1''), (''source_label'', ''''),
       (''target_label'', ''''), (''weight'', ''-2.5'')]]"

definition sample_index_row :: row where
  "sample_index_row =
     [(''labels'', ''Person;Org''), (''properties'', ''name; age''), (''type'', ''RANGE''),
      (''uniqueness'', ''NON_UNIQUE'')]"

definition sample_constraint_row :: row where
  "sample_constraint_row =
     [(''labels'', ''Person''), (''properties'', ''id''), (''type'', ''UNIQUE'')]"

definition sample_listdir :: "string \<Rightarrow> string list" where
  "sample_listdir p =
     (if p = ''data'' then [''tenant_b'', ''tenant_a'', ''notes.txt'']
      else if p = ''data/tenant_a''
      then [''nodes_Person.csv'', ''constraints.csv'', ''edges_KNOWS.csv'', ''indexes.csv'']
      else if p = ''data/tenant_b'' then [''nodes_Person.csv'']
      else [])"

definition sample_read :: "string \<Rightarrow> row list" where
  "sample_read p =
     (if p = ''data/tenant_a/nodes_Person.csv'' then sample_person_rows
      else if p = ''data/tenant_a/constraints.csv'' then [sample_constraint_row]
      else if p = ''data/tenant_a/indexes.csv'' then [sample_index_row]
      else if p = ''data/tenant_a/edges_KNOWS.csv'' then sample_knows_rows
      else if p = ''data/tenant_b/nodes_Person.csv'' then [[(''id'', ''7''), (''score'', ''--5'')]]
      else [])"

definition sample_repr :: "typed_value \<Rightarrow> string" where
  "sample_repr tv =
     (case tv of
        Integer i \<Rightarrow> ''<int>''
      | Float t \<Rightarrow> ''<float>''
      | String t \<Rightarrow> [CHR 0x27] @ t @ [CHR 0x27]
      | Null \<Rightarrow> ''None'')"

text \<open>A store that accepts every call, and one that refuses every call.\<close>

definition sample_env :: env where
  "sample_env =
     \<lparr>listdir = sample_listdir,
      isdir = (\<lambda>p. p = ''data/tenant_a'' \<or> p = ''data/tenant_b''),
      path_exists = (\<lambda>p. True),
      read_csv_file = sample_read,
      store_accepts = (\<lambda>history ev. True),
      repr_of = sample_repr\<rparr>"

definition refusing_env :: env where
  "refusing_env = sample_env\<lparr>store_accepts := (\<lambda>history ev. False)\<rparr>"

definition sample_loader :: loader where
  "sample_loader =
     \<lparr>graph_name = ''g'', csv_dir = ''data'', graph = None, merge_mode = False,
      multi_graph_mode = True, issued = []\<rparr>"

definition tenant_a_loader :: loader where
  "tenant_a_loader =
     \<lparr>graph_name = ''g'', csv_dir = ''data/tenant_a'', graph = Some ''g_a'', merge_mode = False,
      multi_graph_mode = True, issued = []\<rparr>"

section \<open>Value typing: results\<close>

lemma infer_node_value_empty: "infer_node_value [] = Inr Null"
  by (simp add: infer_node_value_def)

lemma infer_node_value_digits: "isdigit t \<Longrightarrow> infer_node_value t = Inr (Integer (py_int t))"
  by (auto simp: infer_node_value_def isdigit_def)

lemma infer_node_value_string:
  "t \<noteq> [] \<Longrightarrow> \<not> isdigit t \<Longrightarrow> \<not> isdigit (lstrip_minus (drop_first_dot t))
   \<Longrightarrow> infer_node_value t = Inr (String t)"
  by (simp add: infer_node_value_def)

text \<open>
  A text that passes the edge loader's float test starts with a digit or a dot, so
  \<^verbatim>\<open>float\<close> accepts it: the edge loader's inference never raises.
\<close>

lemma digits_no_sign:
  assumes "isdigit (drop_first_dot v)"
  shows "\<not> prefix ''-'' v \<and> \<not> prefix ''+'' v"
proof (cases v)
  case Nil
  then show ?thesis by simp
next
  case (Cons c cs)
  with assms show ?thesis
    by (auto simp: isdigit_def drop_first_dot_def is_digit_char_def split: if_splits)
qed

lemma infer_edge_value_total: "\<exists>tv. infer_edge_value v = Inr tv"
  using digits_no_sign [of v]
  by (auto simp: infer_edge_value_def py_float_def Let_def)

lemma edge_properties_total: "\<exists>p. edge_properties r acc = Inr p"
proof (induction r arbitrary: acc)
  case Nil
  then show ?case by simp
next
  case (Cons kv r)
  obtain key v where kv: "kv = (key, v)" by (cases kv)
  obtain tv where "infer_edge_value v = Inr tv" using infer_edge_value_total by blast
  with Cons kv show ?case by simp
qed

text \<open>
  C2. Value typing of the node loader is claimed to return for every text: Null,
  Integer, Float or else String, without raising. The node loader's float test strips
  every leading minus sign, so the text \<^verbatim>\<open>--5\<close> passes it and reaches \<^verbatim>\<open>float\<close>, which
  raises \<^verbatim>\<open>ValueError\<close>; the claim asks for the String \<^verbatim>\<open>--5\<close>. The exception is
  raised while the per-row queries are built, outside every \<^verbatim>\<open>try\<close>, so it leaves the
  node loader.
\<close>

theorem node_typing_double_minus_raises:
  "infer_node_value ''--5'' = Inl ValueError
   \<and> node_query_parts E merge label [[(''id'', ''7''), (''score'', ''--5'')]] = Inl ValueError"
  by (simp add: infer_node_value_def isdigit_def is_digit_char_def lstrip_minus_def
        drop_first_dot_def py_float_def node_row_query_def)

text \<open>
  C3. The node loader and the edge loader are claimed to type every text alike. They
  do not: the edge loader's float test lacks the minus-sign allowance of the node
  loader, so \<^verbatim>\<open>-1.5\<close> is a Float for a node and a String for an edge.
\<close>

theorem node_edge_typing_differ:
  "infer_node_value ''-1.5'' = Inr (Float ''-1.5'')
   \<and> infer_edge_value ''-1.5'' = Inr (String ''-1.5'')"
  by (simp add: infer_node_value_def infer_edge_value_def isdigit_def is_digit_char_def
        lstrip_minus_def drop_first_dot_def py_float_def)

section \<open>The calls a run makes\<close>

lemma emitsI: "s' = s\<lparr>issued := issued s @ ops\<rparr> \<Longrightarrow> list_all Q ops \<Longrightarrow> emits Q s s'"
  unfolding emits_def by blast

lemma emits_refl: "emits Q s s"
  by (rule emitsI [where ops = "[]"]) simp_all

lemma emits_trans:
  assumes "emits Q s s1" and "emits Q s1 s2"
  shows "emits Q s s2"
proof -
  from assms(1) obtain o1 where 1: "s1 = s\<lparr>issued := issued s @ o1\<rparr>" "list_all Q o1"
    unfolding emits_def by blast
  from assms(2) obtain o2 where 2: "s2 = s1\<lparr>issued := issued s1 @ o2\<rparr>" "list_all Q o2"
    unfolding emits_def by blast
  show ?thesis
  proof (rule emitsI)
    show "s2 = s\<lparr>issued := issued s @ (o1 @ o2)\<rparr>" using 1(1) 2(1) by simp
    show "list_all Q (o1 @ o2)" using 1(2) 2(2) by simp
  qed
qed

lemma emits_weaken:
  assumes "emits P s s'" and "\<And>ev. P ev \<Longrightarrow> Q ev"
  shows "emits Q s s'"
proof -
  from assms(1) obtain ops where o: "s' = s\<lparr>issued := issued s @ ops\<rparr>" "list_all P ops"
    unfolding emits_def by blast
  have "list_all Q ops" using o(2) assms(2) by (simp add: list_all_iff)
  with o(1) show ?thesis by (rule emitsI)
qed

lemma emits_frame:
  assumes "emits Q s s'"
  shows "csv_dir s' = csv_dir s" and "graph_name s' = graph_name s" and "graph s' = graph s"
    and "merge_mode s' = merge_mode s" and "multi_graph_mode s' = multi_graph_mode s"
  using assms unfolding emits_def by auto

lemma graph_query_emits: "emits (\<lambda>ev. event_site ev = site) s (snd (graph_query E site q p s))"
proof (cases "graph s")
  case None
  then show ?thesis by (simp add: graph_query_def emits_refl)
next
  case (Some g)
  show ?thesis
    by (rule emitsI [where ops = "[GraphQuery site g q p]"]) (simp_all add: graph_query_def Some)
qed

lemma execute_command_emits:
  "emits (\<lambda>ev. event_site ev = site) s (snd (execute_command E site args s))"
  by (rule emitsI [where ops = "[RawCommand site args]"]) (simp_all add: execute_command_def)

lemma fold_emits:
  assumes "\<And>x s. emits Q s (f x s)"
  shows "emits Q s (fold f xs s)"
proof (induction xs arbitrary: s)
  case Nil
  show ?case by (simp add: emits_refl)
next
  case (Cons x xs)
  have "emits Q s (fold f xs (f x s))" using assms [of s x] Cons [of "f x s"] by (rule emits_trans)
  then show ?case by simp
qed

lemma run_each_emits:
  assumes "\<And>x s. emits Q s (snd (f x s))"
  shows "emits Q s (snd (run_each f xs s))"
proof (induction xs arbitrary: s)
  case Nil
  show ?case by (simp add: emits_refl)
next
  case (Cons x xs)
  obtain out s1 where fx: "f x s = (out, s1)" by (cases "f x s")
  have step: "emits Q s s1" using assms [of s x] fx by simp
  show ?case
  proof (cases out)
    case Returned
    then have "snd (run_each f (x # xs) s) = snd (run_each f xs s1)" using fx by simp
    then show ?thesis using emits_trans [OF step Cons [of s1]] by simp
  next
    case (Raised e)
    then have "snd (run_each f (x # xs) s) = s1" using fx by simp
    then show ?thesis using step by simp
  qed
qed

lemma create_id_indexes_emits:
  "emits (\<lambda>ev. event_site ev = IdIndex) s (create_id_indexes_for_all_labels E s)"
  unfolding create_id_indexes_for_all_labels_def
  by (simp add: emits_refl fold_emits graph_query_emits)

lemma create_index_row_emits:
  "emits (\<lambda>ev. event_site ev = DescriptorIndex) s (create_index_row E index s)"
  unfolding create_index_row_def
  by (simp add: emits_refl fold_emits graph_query_emits)

lemma create_indexes_emits:
  "emits (\<lambda>ev. event_site ev = DescriptorIndex) s (create_indexes_from_csv E s)"
  unfolding create_indexes_from_csv_def
  by (simp add: emits_refl fold_emits create_index_row_emits)

lemma supporting_index_row_emits:
  "emits (\<lambda>ev. event_site ev = SupportingIndex) s (supporting_index_row E c s)"
  unfolding supporting_index_row_def
  by (simp add: emits_refl fold_emits graph_query_emits)

lemma create_supporting_emits:
  "emits (\<lambda>ev. event_site ev = SupportingIndex) s (create_supporting_indexes_for_constraints E s)"
  unfolding create_supporting_indexes_for_constraints_def
  by (simp add: emits_refl fold_emits supporting_index_row_emits)

lemma constraint_row_emits:
  "emits (\<lambda>ev. event_site ev = ConstraintCreate) s (constraint_row E c s)"
  unfolding constraint_row_def
  by (simp add: emits_refl fold_emits execute_command_emits)

lemma create_constraints_emits:
  "emits (\<lambda>ev. event_site ev = ConstraintCreate) s (create_constraints_from_csv E s)"
  unfolding create_constraints_from_csv_def
  by (simp add: emits_refl fold_emits constraint_row_emits)

lemma run_fallback_emits:
  "emits (\<lambda>ev. event_site ev = site) s (run_fallback E site qs s)"
  unfolding run_fallback_def by (simp add: fold_emits graph_query_emits)

lemma load_node_batch_emits:
  "emits (\<lambda>ev. event_phase ev = 4) s (snd (load_node_batch E label batch s))"
proof -
  have row: "\<And>qs s. emits (\<lambda>ev. event_phase ev = 4) s (run_fallback E NodeRow qs s)"
    by (rule emits_weaken [OF run_fallback_emits]) (simp add: event_phase_def)
  have bulk: "\<And>q p s. emits (\<lambda>ev. event_phase ev = 4) s (snd (graph_query E NodeBulk q p s))"
    by (rule emits_weaken [OF graph_query_emits]) (simp add: event_phase_def)
  show ?thesis
    unfolding load_node_batch_def
    by (auto simp: Let_def emits_refl row bulk intro: emits_trans [OF bulk row]
          split: sum.splits)
qed

lemma load_nodes_batch_emits:
  "emits (\<lambda>ev. event_phase ev = 4) s (snd (load_nodes_batch E path bs s))"
  unfolding load_nodes_batch_def
  by (simp add: emits_refl run_each_emits load_node_batch_emits split: sum.splits)

lemma load_edge_batch_emits:
  "emits (\<lambda>ev. event_phase ev = 5) s (snd (load_edge_batch E rel batch s))"
proof -
  have row: "\<And>qs s. emits (\<lambda>ev. event_phase ev = 5) s (run_fallback E EdgeRow qs s)"
    by (rule emits_weaken [OF run_fallback_emits]) (simp add: event_phase_def)
  have bulk: "\<And>q p s. emits (\<lambda>ev. event_phase ev = 5) s (snd (graph_query E EdgeBulk q p s))"
    by (rule emits_weaken [OF graph_query_emits]) (simp add: event_phase_def)
  show ?thesis
    unfolding load_edge_batch_def
    by (auto simp: Let_def emits_refl row bulk intro: emits_trans [OF bulk row]
          split: sum.splits list.splits)
qed

lemma load_edges_batch_emits:
  "emits (\<lambda>ev. event_phase ev = 5) s (snd (load_edges_batch E path bs s))"
  unfolding load_edges_batch_def
  by (simp add: emits_refl run_each_emits load_edge_batch_emits split: sum.splits)


lemma emits_phase_of_site:
  "emits (\<lambda>ev. event_site ev = site) s s' \<Longrightarrow> emits (\<lambda>ev. event_phase ev = site_phase site) s s'"
  by (erule emits_weaken) (simp add: event_phase_def)

lemma emitsE:
  assumes "emits Q s s'"
  obtains ops where "s' = s\<lparr>issued := issued s @ ops\<rparr>" and "list_all Q ops"
  using assms unfolding emits_def by blast

lemma sorted_phase_append:
  assumes "sorted (map event_phase xs)" and "list_all (\<lambda>ev. event_phase ev < k) xs"
    and "list_all (\<lambda>ev. event_phase ev = k) ys"
  shows "sorted (map event_phase (xs @ ys)) \<and> list_all (\<lambda>ev. event_phase ev < Suc k) (xs @ ys)"
proof -
  have "sorted (map event_phase ys)"
    using assms(3) by (induction ys) (auto simp: list_all_iff)
  moreover have "\<forall>x\<in>set xs. \<forall>y\<in>set ys. event_phase x \<le> event_phase y"
    using assms(2,3) by (auto simp: list_all_iff)
  ultimately have "sorted (map event_phase (xs @ ys))"
    using assms(1) by (simp add: sorted_append)
  moreover have "list_all (\<lambda>ev. event_phase ev < Suc k) (xs @ ys)"
    using assms(2,3) by (auto simp: list_all_iff)
  ultimately show ?thesis by blast
qed

lemma provision_schema_emits:
  "\<exists>schema. provision_schema E s = s\<lparr>issued := issued s @ schema\<rparr>
     \<and> sorted (map event_phase schema) \<and> list_all (\<lambda>ev. event_phase ev < 4) schema"
proof -
  define s1 where "s1 = create_id_indexes_for_all_labels E s"
  define s2 where "s2 = create_indexes_from_csv E s1"
  define s3 where "s3 = create_supporting_indexes_for_constraints E s2"
  define s4 where "s4 = create_constraints_from_csv E s3"
  have "emits (\<lambda>ev. event_phase ev = 0) s s1"
    unfolding s1_def using emits_phase_of_site [OF create_id_indexes_emits] by simp
  then obtain o0 where o0: "s1 = s\<lparr>issued := issued s @ o0\<rparr>" "list_all (\<lambda>ev. event_phase ev = 0) o0"
    by (rule emitsE)
  have "emits (\<lambda>ev. event_phase ev = 1) s1 s2"
    unfolding s2_def using emits_phase_of_site [OF create_indexes_emits] by simp
  then obtain o1 where o1: "s2 = s1\<lparr>issued := issued s1 @ o1\<rparr>" "list_all (\<lambda>ev. event_phase ev = 1) o1"
    by (rule emitsE)
  have "emits (\<lambda>ev. event_phase ev = 2) s2 s3"
    unfolding s3_def using emits_phase_of_site [OF create_supporting_emits] by simp
  then obtain o2 where o2: "s3 = s2\<lparr>issued := issued s2 @ o2\<rparr>" "list_all (\<lambda>ev. event_phase ev = 2) o2"
    by (rule emitsE)
  have "emits (\<lambda>ev. event_phase ev = 3) s3 s4"
    unfolding s4_def using emits_phase_of_site [OF create_constraints_emits] by simp
  then obtain o3 where o3: "s4 = s3\<lparr>issued := issued s3 @ o3\<rparr>" "list_all (\<lambda>ev. event_phase ev = 3) o3"
    by (rule emitsE)
  have a0: "sorted (map event_phase ([] @ o0)) \<and> list_all (\<lambda>ev. event_phase ev < Suc 0) ([] @ o0)"
    by (rule sorted_phase_append) (simp_all add: o0(2))
  have a1: "sorted (map event_phase (o0 @ o1)) \<and> list_all (\<lambda>ev. event_phase ev < Suc 1) (o0 @ o1)"
    by (rule sorted_phase_append) (use a0 o1(2) in simp_all)
  have a2: "sorted (map event_phase ((o0 @ o1) @ o2))
            \<and> list_all (\<lambda>ev. event_phase ev < Suc 2) ((o0 @ o1) @ o2)"
    by (rule sorted_phase_append) (use a1 o2(2) in \<open>simp_all add: numeral_2_eq_2\<close>)
  have a3: "sorted (map event_phase (((o0 @ o1) @ o2) @ o3))
            \<and> list_all (\<lambda>ev. event_phase ev < Suc 3) (((o0 @ o1) @ o2) @ o3)"
    by (rule sorted_phase_append) (use a2 o3(2) in \<open>simp_all add: numeral_3_eq_3\<close>)
  have "provision_schema E s = s4"
    by (simp add: provision_schema_def s1_def s2_def s3_def s4_def)
  also have "s4 = s\<lparr>issued := issued s @ (((o0 @ o1) @ o2) @ o3)\<rparr>"
    using o0(1) o1(1) o2(1) o3(1) by simp
  finally have "provision_schema E s = s\<lparr>issued := issued s @ (((o0 @ o1) @ o2) @ o3)\<rparr>" .
  moreover have "Suc 3 = 4" by simp
  ultimately show ?thesis using a3 by metis
qed

lemma load_node_files_emits:
  "emits (\<lambda>ev. event_phase ev = 4) s (snd (load_node_files E bs files s))"
  unfolding load_node_files_def by (rule run_each_emits) (rule load_nodes_batch_emits)

lemma load_edge_files_emits:
  "emits (\<lambda>ev. event_phase ev = 5) s (snd (load_edge_files E bs files s))"
  unfolding load_edge_files_def by (rule run_each_emits) (rule load_edges_batch_emits)

text \<open>
  C6. Within one run of the single-graph pipeline the calls to the store come in this
  order: everything the schema provisioner issues (id indexes, then descriptor
  indexes, then constraint-supporting indexes, then constraints), then every call of
  the node loads, then every call of the edge loads. The provisioner's calls are
  complete before the first node write, and no edge call precedes a node call. This
  holds for every store and also when a node load raises (no edge call is made then).
\<close>

theorem pipeline_phase_order:
  "\<exists>schema nodes edges.
     issued (snd (load_single_graph_csvs E batch_size s)) = issued s @ schema @ nodes @ edges
     \<and> issued (provision_schema E s) = issued s @ schema
     \<and> sorted (map event_phase schema)
     \<and> list_all (\<lambda>ev. event_phase ev < 4) schema
     \<and> list_all (\<lambda>ev. event_phase ev = 4) nodes
     \<and> list_all (\<lambda>ev. event_phase ev = 5) edges"
proof -
  define node_files where "node_files = filter is_node_file (listdir E (csv_dir s))"
  define edge_files where "edge_files = filter is_edge_file (listdir E (csv_dir s))"
  obtain schema where sch: "provision_schema E s = s\<lparr>issued := issued s @ schema\<rparr>"
      "sorted (map event_phase schema)" "list_all (\<lambda>ev. event_phase ev < 4) schema"
    using provision_schema_emits by blast
  define s4 where "s4 = provision_schema E s"
  obtain out s5 where n: "load_node_files E batch_size node_files s4 = (out, s5)"
    by (cases "load_node_files E batch_size node_files s4")
  have "emits (\<lambda>ev. event_phase ev = 4) s4 s5"
    using load_node_files_emits [of s4 E batch_size node_files] n by simp
  then obtain nodes where nd: "s5 = s4\<lparr>issued := issued s4 @ nodes\<rparr>"
      "list_all (\<lambda>ev. event_phase ev = 4) nodes"
    by (rule emitsE)
  define s6 where "s6 = (case out of Returned \<Rightarrow> snd (load_edge_files E batch_size edge_files s5)
                           | Raised e \<Rightarrow> s5)"
  have "emits (\<lambda>ev. event_phase ev = 5) s5 s6"
    unfolding s6_def by (cases out) (simp_all add: load_edge_files_emits emits_refl)
  then obtain edges where ed: "s6 = s5\<lparr>issued := issued s5 @ edges\<rparr>"
      "list_all (\<lambda>ev. event_phase ev = 5) edges"
    by (rule emitsE)
  have "snd (load_single_graph_csvs E batch_size s) = s6"
    unfolding load_single_graph_csvs_def s6_def
    using n by (cases out) (simp_all add: node_files_def edge_files_def s4_def Let_def)
  then have "issued (snd (load_single_graph_csvs E batch_size s)) = issued s @ schema @ nodes @ edges"
    using ed(1) nd(1) sch(1) by (simp add: s4_def)
  moreover have "issued (provision_schema E s) = issued s @ schema"
    using sch(1) by simp
  ultimately show ?thesis using sch(2,3) nd(2) ed(2) by blast
qed

theorem pipeline_phase_order_witness:
  "(\<exists>schema nodes edges.
      issued (snd (load_single_graph_csvs sample_env 5000 tenant_a_loader))
        = issued tenant_a_loader @ schema @ nodes @ edges
      \<and> issued (provision_schema sample_env tenant_a_loader) = issued tenant_a_loader @ schema
      \<and> sorted (map event_phase schema)
      \<and> list_all (\<lambda>ev. event_phase ev < 4) schema
      \<and> list_all (\<lambda>ev. event_phase ev = 4) nodes
      \<and> list_all (\<lambda>ev. event_phase ev = 5) edges)
   \<and> map event_site (issued (snd (load_single_graph_csvs sample_env 5000 tenant_a_loader)))
       = [IdIndex, DescriptorIndex, DescriptorIndex, DescriptorIndex, DescriptorIndex,
          SupportingIndex, ConstraintCreate, NodeBulk, EdgeBulk]"
proof -
  have sites: "map event_site (issued (snd (load_single_graph_csvs sample_env 5000 tenant_a_loader)))
       = [IdIndex, DescriptorIndex, DescriptorIndex, DescriptorIndex, DescriptorIndex,
          SupportingIndex, ConstraintCreate, NodeBulk, EdgeBulk]"
    by code_simp
  show ?thesis
    using pipeline_phase_order [of sample_env 5000 tenant_a_loader] sites by blast
qed

section \<open>Index descriptors\<close>

lemma graph_query_issued:
  "graph s = Some g \<Longrightarrow>
   snd (graph_query E site q p s) = s\<lparr>issued := issued s @ [GraphQuery site g q p]\<rparr>"
  by (simp add: graph_query_def)

lemma fold_query_issued:
  "graph s = Some g \<Longrightarrow>
   fold (\<lambda>x s'. snd (graph_query E site (qf x) None s')) xs s
     = s\<lparr>issued := issued s @ map (\<lambda>x. GraphQuery site g (qf x) None) xs\<rparr>"
proof (induction xs arbitrary: s)
  case Nil
  then show ?case by simp
next
  case (Cons x xs)
  let ?s1 = "s\<lparr>issued := issued s @ [GraphQuery site g (qf x) None]\<rparr>"
  have "graph ?s1 = Some g" using Cons.prems by simp
  from Cons.IH [OF this] show ?case
    using Cons.prems by (simp add: graph_query_issued)
qed

lemma fold_fold_query_issued:
  "graph s = Some g \<Longrightarrow>
   fold (\<lambda>x s'. fold (\<lambda>y s''. snd (graph_query E site (qf x y) None s'')) ys s') xs s
     = s\<lparr>issued := issued s @ map (\<lambda>(x, y). GraphQuery site g (qf x y) None) (List.product xs ys)\<rparr>"
proof (induction xs arbitrary: s)
  case Nil
  then show ?case by simp
next
  case (Cons x xs)
  let ?s1 = "s\<lparr>issued := issued s @ map (\<lambda>y. GraphQuery site g (qf x y) None) ys\<rparr>"
  have "graph ?s1 = Some g" using Cons.prems by simp
  from Cons.IH [OF this] show ?case
    using Cons.prems by (simp add: fold_query_issued [where qf = "qf x"] comp_def)
qed

text \<open>
  With a graph selected, \<^verbatim>\<open>create_indexes_from_csv\<close> sends, for the rows of
  \<^verbatim>\<open>indexes.csv\<close> in file order, nothing for a row that is passed over and otherwise one
  index-creation query for each pair of the row's label list and property list,
  whatever the store answers.
\<close>

lemma create_index_row_issued:
  assumes "graph s = Some g"
  shows "create_index_row E index s =
     s\<lparr>issued := issued s @
       (if index_row_skipped index then []
        else map (\<lambda>(label, prop). GraphQuery DescriptorIndex g (index_query label prop) None)
               (List.product (split_list (strip (row_get index ''labels'' '''')))
                             (split_list (strip (row_get index ''properties'' '''')))))\<rparr>"
  using fold_fold_query_issued [OF assms, where qf = index_query]
  by (simp add: create_index_row_def)

lemma fold_create_index_row_issued:
  "graph s = Some g \<Longrightarrow>
   fold (create_index_row E) rows s =
     s\<lparr>issued := issued s @ concat (map (\<lambda>index.
        if index_row_skipped index then []
        else map (\<lambda>(label, prop). GraphQuery DescriptorIndex g (index_query label prop) None)
               (List.product (split_list (strip (row_get index ''labels'' '''')))
                             (split_list (strip (row_get index ''properties'' ''''))))) rows)\<rparr>"
proof (induction rows arbitrary: s)
  case Nil
  then show ?case by simp
next
  case (Cons r rows)
  let ?s1 = "create_index_row E r s"
  have g1: "graph ?s1 = Some g" using Cons.prems by (simp add: create_index_row_issued)
  show ?case using Cons.IH [OF g1] Cons.prems by (simp add: create_index_row_issued)
qed

lemma create_indexes_from_csv_issued:
  assumes "graph s = Some g" and "path_exists E (path_join (csv_dir s) ''indexes.csv'')"
  shows "create_indexes_from_csv E s =
     s\<lparr>issued := issued s @ concat (map (\<lambda>index.
        if index_row_skipped index then []
        else map (\<lambda>(label, prop). GraphQuery DescriptorIndex g (index_query label prop) None)
               (List.product (split_list (strip (row_get index ''labels'' '''')))
                             (split_list (strip (row_get index ''properties'' '''')))))
        (read_csv_file E (path_join (csv_dir s) ''indexes.csv'')))\<rparr>"
  using assms by (simp add: create_indexes_from_csv_def fold_create_index_row_issued)

text \<open>Without a selected graph every query of the loop raises, and nothing is sent.\<close>

lemma fold_query_unselected:
  "graph s = None \<Longrightarrow> fold (\<lambda>x s'. snd (graph_query E site (qf x) None s')) xs s = s"
  by (induction xs) (simp_all add: graph_query_def)

lemma create_index_row_unselected:
  assumes "graph s = None"
  shows "create_index_row E index s = s"
proof -
  have "fold (\<lambda>label s'.
               fold (\<lambda>prop s''. snd (graph_query E DescriptorIndex (index_query label prop) None s''))
                 props s') labels s = s" for props labels
    using assms by (induction labels) (simp_all add: fold_query_unselected)
  then show ?thesis by (simp add: create_index_row_def)
qed

lemma create_indexes_from_csv_unselected:
  assumes "graph s = None"
  shows "create_indexes_from_csv E s = s"
proof -
  have "fold (create_index_row E) rows s = s" for rows
    using assms by (induction rows) (simp_all add: create_index_row_unselected)
  then show ?thesis by (simp add: create_indexes_from_csv_def)
qed

text \<open>
  C8. Every row of the index descriptor file that is not passed over is claimed to get
  one index-creation operation for each pair of its labels and properties. The loader
  built in multi-graph mode has no graph selected (\<^verbatim>\<open>self.graph = None\<close>, to be set per
  tenant), and when its source directory holds no tenant directory
  \<^verbatim>\<open>_load_multi_graph_csvs\<close> falls back to \<^verbatim>\<open>_load_single_graph_csvs\<close> without selecting
  one, as the constructor does in single-graph mode and the tenant loop does for each
  tenant. On the directory of tenant \<^verbatim>\<open>a\<close>, whose \<^verbatim>\<open>indexes.csv\<close> has one row with two
  labels and two properties, the whole run in multi-graph mode sends the raw
  constraint command and nothing else: no index-creation operation for the row. The
  same run in single-graph mode sends the four queries of the row.
\<close>

theorem fallback_issues_no_index:
  "multi_graph_mode (new_loader ''g'' ''data/tenant_a'' False True)
   \<and> graph (new_loader ''g'' ''data/tenant_a'' False True) = None
   \<and> tenant_dirs sample_env ''data/tenant_a'' = []
   \<and> read_csv_file sample_env ''data/tenant_a/indexes.csv'' = [sample_index_row]
   \<and> index_row_skipped sample_index_row = False
   \<and> split_list (strip (row_get sample_index_row ''labels'' '''')) = [''Person'', ''Org'']
   \<and> split_list (strip (row_get sample_index_row ''properties'' '''')) = [''name'', ''age'']
   \<and> issued (snd (load_all_csvs sample_env 5000 (new_loader ''g'' ''data/tenant_a'' False True)))
       = [RawCommand ConstraintCreate
            [''GRAPH.CONSTRAINT'', ''CREATE'', ''g'', ''UNIQUE'', ''NODE'', ''Person'',
             ''PROPERTIES'', ''1'', ''id'']]
   \<and> filter (\<lambda>ev. event_site ev = DescriptorIndex)
        (issued (snd (load_all_csvs sample_env 5000 (new_loader ''g'' ''data/tenant_a'' False False))))
       = [GraphQuery DescriptorIndex ''g'' ''CREATE INDEX ON :Person(name)'' None,
          GraphQuery DescriptorIndex ''g'' ''CREATE INDEX ON :Person(age)'' None,
          GraphQuery DescriptorIndex ''g'' ''CREATE INDEX ON :Org(name)'' None,
          GraphQuery DescriptorIndex ''g'' ''CREATE INDEX ON :Org(age)'' None]"
  by code_simp

section \<open>Tenant orchestration\<close>

lemma emits_any: "emits Q s s' \<Longrightarrow> emits (\<lambda>ev. True) s s'"
  by (erule emits_weaken) simp

lemma provision_schema_any: "emits (\<lambda>ev. True) s (provision_schema E s)"
proof -
  have 1: "emits (\<lambda>ev. True) s (create_id_indexes_for_all_labels E s)"
    by (rule emits_any [OF create_id_indexes_emits])
  have 2: "emits (\<lambda>ev. True) s (create_indexes_from_csv E (create_id_indexes_for_all_labels E s))"
    by (rule emits_trans [OF 1 emits_any [OF create_indexes_emits]])
  have 3: "emits (\<lambda>ev. True) s (create_supporting_indexes_for_constraints E
             (create_indexes_from_csv E (create_id_indexes_for_all_labels E s)))"
    by (rule emits_trans [OF 2 emits_any [OF create_supporting_emits]])
  show ?thesis
    unfolding provision_schema_def
    by (rule emits_trans [OF 3 emits_any [OF create_constraints_emits]])
qed

lemma load_single_graph_csvs_emits:
  "emits (\<lambda>ev. True) s (snd (load_single_graph_csvs E batch_size s))"
proof -
  define nf where "nf = filter is_node_file (listdir E (csv_dir s))"
  define ef where "ef = filter is_edge_file (listdir E (csv_dir s))"
  obtain out s5 where n: "load_node_files E batch_size nf (provision_schema E s) = (out, s5)"
    by (cases "load_node_files E batch_size nf (provision_schema E s)")
  have "emits (\<lambda>ev. True) (provision_schema E s) (snd (load_node_files E batch_size nf (provision_schema E s)))"
    by (rule emits_any [OF load_node_files_emits])
  then have 2: "emits (\<lambda>ev. True) (provision_schema E s) s5" using n by simp
  have 12: "emits (\<lambda>ev. True) s s5" by (rule emits_trans [OF provision_schema_any 2])
  show ?thesis
  proof (cases out)
    case Returned
    have "snd (load_single_graph_csvs E batch_size s) = snd (load_edge_files E batch_size ef s5)"
      unfolding load_single_graph_csvs_def Let_def nf_def [symmetric] ef_def [symmetric]
      using n Returned by simp
    moreover have "emits (\<lambda>ev. True) s (snd (load_edge_files E batch_size ef s5))"
      by (rule emits_trans [OF 12 emits_any [OF load_edge_files_emits]])
    ultimately show ?thesis by simp
  next
    case (Raised e)
    have "snd (load_single_graph_csvs E batch_size s) = s5"
      unfolding load_single_graph_csvs_def Let_def nf_def [symmetric] ef_def [symmetric]
      using n Raised by simp
    then show ?thesis using 12 by simp
  qed
qed

lemma load_tenant_csv_dir: "csv_dir (load_tenant E batch_size tenant_dir s) = csv_dir s"
proof -
  define s2 where "s2 = s\<lparr>graph := Some (graph_name s @ ''_'' @ replace_all ''tenant_'' '''' tenant_dir),
                          csv_dir := path_join (csv_dir s) tenant_dir\<rparr>"
  obtain out s3 where r: "load_single_graph_csvs E batch_size s2 = (out, s3)"
    by (cases "load_single_graph_csvs E batch_size s2")
  have "load_tenant E batch_size tenant_dir s = s3\<lparr>csv_dir := csv_dir s\<rparr>"
    unfolding load_tenant_def Let_def s2_def [symmetric]
    using r by (cases out) simp_all
  then show ?thesis by simp
qed

lemma fold_load_tenant_csv_dir: "csv_dir (fold (load_tenant E batch_size) dirs s) = csv_dir s"
  by (induction dirs arbitrary: s) (simp_all add: load_tenant_csv_dir)

lemma load_multi_csv_dir: "csv_dir (snd (load_multi_graph_csvs E batch_size s)) = csv_dir s"
proof (cases "tenant_dirs E (csv_dir s) = []")
  case True
  then have "snd (load_multi_graph_csvs E batch_size s) = snd (load_single_graph_csvs E batch_size s)"
    by (simp add: load_multi_graph_csvs_def)
  then show ?thesis using emits_frame(1) [OF load_single_graph_csvs_emits] by simp
next
  case False
  then have "snd (load_multi_graph_csvs E batch_size s)
             = fold (load_tenant E batch_size) (sort (tenant_dirs E (csv_dir s))) s"
    by (simp add: load_multi_graph_csvs_def)
  then show ?thesis by (simp add: fold_load_tenant_csv_dir)
qed

text \<open>
  C10. In the tenant loop the directory field is back at the root after every
  iteration, whether the tenant's pipeline returned or raised; hence it is at the root
  before each next tenant and after the whole orchestration.
\<close>

theorem tenant_loop_restores_csv_dir:
  "csv_dir (load_tenant E batch_size tenant_dir s) = csv_dir s
   \<and> csv_dir (fold (load_tenant E batch_size) dirs s) = csv_dir s
   \<and> csv_dir (snd (load_multi_graph_csvs E batch_size s)) = csv_dir s"
  by (simp add: load_tenant_csv_dir fold_load_tenant_csv_dir load_multi_csv_dir)

theorem tenant_loop_restores_csv_dir_witness:
  "fst (load_single_graph_csvs sample_env 5000
          (sample_loader\<lparr>graph := Some ''g_b'', csv_dir := ''data/tenant_b''\<rparr>)) = Raised ValueError
   \<and> csv_dir (load_tenant sample_env 5000 ''tenant_b'' sample_loader) = ''data''
   \<and> csv_dir (snd (load_multi_graph_csvs sample_env 5000 sample_loader)) = ''data''"
proof -
  have r: "fst (load_single_graph_csvs sample_env 5000
                  (sample_loader\<lparr>graph := Some ''g_b'', csv_dir := ''data/tenant_b''\<rparr>)) = Raised ValueError"
    by code_simp
  have d: "csv_dir sample_loader = ''data''" by (simp add: sample_loader_def)
  show ?thesis
    using tenant_loop_restores_csv_dir [of sample_env 5000 "''tenant_b''" sample_loader "[]"] r d
    by simp
qed

text \<open>
  C1. In multi-tenant mode every call of a tenant's pipeline is claimed to go to the
  tenant's graph, never to the base graph. The queries do: the loop selects the
  tenant's graph. The constraint command does not: it takes its key from the
  \<^verbatim>\<open>graph_name\<close> field, which the tenant loop never changes. On the sample export
  (base name \<^verbatim>\<open>g\<close>, tenants \<^verbatim>\<open>a\<close> and \<^verbatim>\<open>b\<close>, a unique constraint declared for tenant
  \<^verbatim>\<open>a\<close>) the run sends the constraint to \<^verbatim>\<open>g\<close>.
\<close>

theorem tenant_constraint_targets_base_graph:
  "map event_target (issued (snd (load_all_csvs sample_env 5000 sample_loader))) =
     [Some ''g_a'', Some ''g_a'', Some ''g_a'', Some ''g_a'', Some ''g_a'', Some ''g_a'',
      Some ''g'', Some ''g_a'', Some ''g_a'', Some ''g_b'']
   \<and> issued (snd (load_all_csvs sample_env 5000 sample_loader)) ! 6 =
       RawCommand ConstraintCreate
         [''GRAPH.CONSTRAINT'', ''CREATE'', ''g'', ''UNIQUE'', ''NODE'', ''Person'',
          ''PROPERTIES'', ''1'', ''id'']"
  by code_simp

section \<open>Rows, payloads and the fallback\<close>

lemma edge_row_query_total: "\<exists>q. edge_row_query E merge rel_type r = Inr q"
proof -
  obtain p where "edge_properties r [] = Inr p" using edge_properties_total by blast
  then show ?thesis by (simp add: edge_row_query_def Let_def)
qed

lemma edge_record_of_total: "\<exists>d. edge_record_of r = Inr d"
proof -
  obtain p where "edge_properties r [] = Inr p" using edge_properties_total by blast
  then show ?thesis by (simp add: edge_record_of_def)
qed

lemma edge_query_parts_total:
  "\<exists>qs. edge_query_parts E merge rel_type batch = Inr qs
        \<and> length qs = length (filter (\<lambda>r. \<not> lacks_endpoint r) batch)"
proof (induction batch)
  case Nil
  then show ?case by simp
next
  case (Cons r batch)
  obtain q where "edge_row_query E merge rel_type r = Inr q" using edge_row_query_total by blast
  with Cons show ?case by auto
qed

lemma edge_batch_data_total:
  "\<exists>ds. edge_batch_data batch = Inr ds
        \<and> length ds = length (filter (\<lambda>r. \<not> lacks_endpoint r) batch)"
proof (induction batch)
  case Nil
  then show ?case by simp
next
  case (Cons r batch)
  obtain d where "edge_record_of r = Inr d" using edge_record_of_total by blast
  with Cons show ?case by auto
qed







text \<open>
  C9. The property payload of a translated row is claimed to hold no entry for an empty
  cell and none of the reserved keys. Empty cells are passed over in both loaders, and
  the node loader keeps \<^verbatim>\<open>id\<close> and \<^verbatim>\<open>labels\<close> out. The edge loader tests the field
  name before it collapses \<^verbatim>\<open>X:X\<close> to \<^verbatim>\<open>X\<close>, so a field named \<^verbatim>\<open>type:type\<close> ends up
  in the payload under the reserved key \<^verbatim>\<open>type\<close>.
\<close>

theorem edge_payload_reserved_key:
  "edge_batch_data [[(''source'', ''1''), (''target'', ''2''), (''type:type'', ''KNOWS'')]]
     = Inr [EdgeRecord (Integer 1) (Integer 2) [] [] [(''type'', String ''KNOWS'')]]"
  by code_simp

lemma run_fallback_issued:
  "graph s = Some g \<Longrightarrow>
   run_fallback E site qs s = s\<lparr>issued := issued s @ map (\<lambda>q. GraphQuery site g q None) qs\<rparr>"
  unfolding run_fallback_def by (rule fold_query_issued [where qf = "\<lambda>q. q"])

lemma graph_query_fst:
  "graph s = Some g \<Longrightarrow>
   fst (graph_query E site q p s) = store_accepts E (issued s) (GraphQuery site g q p)"
  by (simp add: graph_query_def)

text \<open>
  The bulk query of the edge loader, written out. Each line of the source's
  triple-quoted text starts with a line feed and the 28 blanks of its indentation.
\<close>

lemma edge_unwind_query_text:
  "edge_unwind_query merge rel_type first =
     (let nl = CHR 0x0A # replicate 28 (CHR '' '') in
      if er_source_label first \<noteq> [] \<and> er_target_label first \<noteq> [] then
        (if merge then
           nl @ ''UNWIND $batch AS row''
           @ nl @ ''MERGE (a:'' @ er_source_label first @ '' {id: row.source_id})''
           @ nl @ ''MERGE (b:'' @ er_target_label first @ '' {id: row.target_id})''
           @ nl @ ''MERGE (a)-[r:'' @ rel_type @ '']->(b)''
           @ nl @ ''SET r += row.props''
           @ nl
         else
           nl @ ''UNWIND $batch AS row''
           @ nl @ ''MATCH (a:'' @ er_source_label first @ '' {id: row.source_id})''
           @ nl @ ''MATCH (b:'' @ er_target_label first @ '' {id: row.target_id})''
           @ nl @ ''CREATE (a)-[r:'' @ rel_type @ '']->(b)''
           @ nl @ ''SET r += row.props''
           @ nl)
      else
        (if merge then
           nl @ ''UNWIND $batch AS row''
           @ nl @ ''MERGE (a {id: row.source_id})''
           @ nl @ ''MERGE (b {id: row.target_id})''
           @ nl @ ''MERGE (a)-[r:'' @ rel_type @ '']->(b)''
           @ nl @ ''SET r += row.props''
           @ nl
         else
           nl @ ''UNWIND $batch AS row''
           @ nl @ ''MATCH (a {id: row.source_id})''
           @ nl @ ''MATCH (b {id: row.target_id})''
           @ nl @ ''CREATE (a)-[r:'' @ rel_type @ '']->(b)''
           @ nl @ ''SET r += row.props''
           @ nl))"
  unfolding edge_unwind_query_def labelled_unwind_query_def plain_unwind_query_def
    query_line_def Let_def
  by simp

lemma load_edge_batch_bulk_event:
  assumes g: "graph s = Some g" and d: "edge_batch_data batch = Inr (first # others)"
  shows "\<exists>rest. issued (snd (load_edge_batch E rel_type batch s)) =
           issued s @ GraphQuery EdgeBulk g (edge_unwind_query (merge_mode s) rel_type first)
             (Some (EdgeBatch (first # others))) # rest"
proof -
  let ?q = "edge_unwind_query (merge_mode s) rel_type first"
  let ?ev = "GraphQuery EdgeBulk g ?q (Some (EdgeBatch (first # others)))"
  let ?s1 = "s\<lparr>issued := issued s @ [?ev]\<rparr>"
  obtain qs where q: "edge_query_parts E (merge_mode s) rel_type batch = Inr qs"
    using edge_query_parts_total by blast
  have s1: "snd (graph_query E EdgeBulk ?q (Some (EdgeBatch (first # others))) s) = ?s1"
    using g by (rule graph_query_issued)
  have g1: "graph ?s1 = Some g" using g by simp
  have fb: "run_fallback E EdgeRow qs ?s1
            = ?s1\<lparr>issued := issued ?s1 @ map (\<lambda>q. GraphQuery EdgeRow g q None) qs\<rparr>"
    using g1 by (rule run_fallback_issued)
  have "issued (snd (load_edge_batch E rel_type batch s)) = issued s @ ?ev # []
        \<or> issued (snd (load_edge_batch E rel_type batch s))
            = issued s @ ?ev # map (\<lambda>q. GraphQuery EdgeRow g q None) qs"
    using q d s1 fb by (simp add: load_edge_batch_def Let_def)
  then show ?thesis by blast
qed

text \<open>
  C7. With a graph selected, for every edge batch with at least one surviving row, the
  first call of the batch step is the one bulk query, sent with the whole payload, and
  its text is chosen by the first record alone. With both labels of the first record present, every record's
  endpoints are matched (merged, in merge mode) by that label and the record's id:
  \<^verbatim>\<open>(a:L {id: row.source_id})\<close>, \<^verbatim>\<open>(b:M {id: row.target_id})\<close> with \<^verbatim>\<open>L\<close>, \<^verbatim>\<open>M\<close> the labels
  of the first record. Otherwise they are matched by id alone:
  \<^verbatim>\<open>(a {id: row.source_id})\<close>, \<^verbatim>\<open>(b {id: row.target_id})\<close>. The labels of the other
  records occur nowhere in the text.
\<close>

theorem edge_bulk_label_decision:
  assumes g: "graph s = Some g" and d: "edge_batch_data batch = Inr (first # others)"
  shows "\<exists>rest. issued (snd (load_edge_batch E rel_type batch s)) =
           issued s @ GraphQuery EdgeBulk g
             (let nl = CHR 0x0A # replicate 28 (CHR '' '') in
              if er_source_label first \<noteq> [] \<and> er_target_label first \<noteq> [] then
                (if merge_mode s then
                   nl @ ''UNWIND $batch AS row''
                   @ nl @ ''MERGE (a:'' @ er_source_label first @ '' {id: row.source_id})''
                   @ nl @ ''MERGE (b:'' @ er_target_label first @ '' {id: row.target_id})''
                   @ nl @ ''MERGE (a)-[r:'' @ rel_type @ '']->(b)''
                   @ nl @ ''SET r += row.props''
                   @ nl
                 else
                   nl @ ''UNWIND $batch AS row''
                   @ nl @ ''MATCH (a:'' @ er_source_label first @ '' {id: row.source_id})''
                   @ nl @ ''MATCH (b:'' @ er_target_label first @ '' {id: row.target_id})''
                   @ nl @ ''CREATE (a)-[r:'' @ rel_type @ '']->(b)''
                   @ nl @ ''SET r += row.props''
                   @ nl)
              else
                (if merge_mode s then
                   nl @ ''UNWIND $batch AS row''
                   @ nl @ ''MERGE (a {id: row.source_id})''
                   @ nl @ ''MERGE (b {id: row.target_id})''
                   @ nl @ ''MERGE (a)-[r:'' @ rel_type @ '']->(b)''
                   @ nl @ ''SET r += row.props''
                   @ nl
                 else
                   nl @ ''UNWIND $batch AS row''
                   @ nl @ ''MATCH (a {id: row.source_id})''
                   @ nl @ ''MATCH (b {id: row.target_id})''
                   @ nl @ ''CREATE (a)-[r:'' @ rel_type @ '']->(b)''
                   @ nl @ ''SET r += row.props''
                   @ nl))
             (Some (EdgeBatch (first # others))) # rest"
  using load_edge_batch_bulk_event [OF g d, of E rel_type]
  unfolding edge_unwind_query_text .

lemma node_row_props_imp_bulk:
  "node_row_properties r acc = Inr p \<Longrightarrow> \<exists>p'. node_bulk_properties r acc' = Inr p'"
proof (induction r arbitrary: acc acc')
  case Nil
  then show ?case by simp
next
  case (Cons kv r)
  obtain key v where kv: "kv = (key, v)" by (cases kv)
  show ?case
  proof (cases "key \<notin> set [''id'', ''labels'']")
    case True
    with Cons.prems kv obtain tv where tv: "infer_node_value v = Inr tv"
        and rest: "node_row_properties r (dict_set key tv acc) = Inr p"
      by (auto split: sum.splits)
    from Cons.IH [OF rest] show ?thesis using kv True tv by auto
  next
    case False
    with Cons.prems kv have "node_row_properties r acc = Inr p" by (auto split: if_splits)
    from Cons.IH [OF this] show ?thesis using kv False by auto
  qed
qed

lemma node_query_parts_imp_data:
  "node_query_parts E merge label batch = Inr qs \<Longrightarrow>
   \<exists>ds. node_batch_data batch = Inr ds \<and> length qs = length batch"
proof (induction batch arbitrary: qs)
  case Nil
  then show ?case by auto
next
  case (Cons r batch)
  from Cons.prems obtain q qs' where q: "node_row_query E merge label r = Inr q"
      and qs': "node_query_parts E merge label batch = Inr qs'" and qs: "qs = q # qs'"
    by (auto split: sum.splits)
  from q obtain p where "node_row_properties r [] = Inr p"
    by (auto simp: node_row_query_def split: sum.splits)
  then obtain p' where "node_bulk_properties r [] = Inr p'"
    using node_row_props_imp_bulk by blast
  then obtain d where d: "node_record_of r = Inr d" by (simp add: node_record_of_def)
  from Cons.IH [OF qs'] obtain ds where "node_batch_data batch = Inr ds" "length qs' = length batch"
    by blast
  with d qs show ?case by simp
qed

lemma load_node_batch_fallback:
  assumes g: "graph s = Some g"
    and q: "node_query_parts E (merge_mode s) label batch = Inr qs"
    and d: "node_batch_data batch = Inr ds"
    and r: "\<not> store_accepts E (issued s)
              (GraphQuery NodeBulk g (node_unwind_query (merge_mode s) label) (Some (NodeBatch ds)))"
  shows "load_node_batch E label batch s =
           (Returned, s\<lparr>issued := issued s
              @ GraphQuery NodeBulk g (node_unwind_query (merge_mode s) label) (Some (NodeBatch ds))
              # map (\<lambda>q. GraphQuery NodeRow g q None) qs\<rparr>)"
proof -
  let ?ev = "GraphQuery NodeBulk g (node_unwind_query (merge_mode s) label) (Some (NodeBatch ds))"
  let ?s1 = "s\<lparr>issued := issued s @ [?ev]\<rparr>"
  have s1: "snd (graph_query E NodeBulk (node_unwind_query (merge_mode s) label) (Some (NodeBatch ds)) s) = ?s1"
    using g by (rule graph_query_issued)
  have f1: "\<not> fst (graph_query E NodeBulk (node_unwind_query (merge_mode s) label) (Some (NodeBatch ds)) s)"
    using r graph_query_fst [OF g] by simp
  have g1: "graph ?s1 = Some g" using g by simp
  have fb: "run_fallback E NodeRow qs ?s1
            = ?s1\<lparr>issued := issued ?s1 @ map (\<lambda>q. GraphQuery NodeRow g q None) qs\<rparr>"
    using g1 by (rule run_fallback_issued)
  show ?thesis using q d s1 f1 fb by (simp add: load_node_batch_def Let_def)
qed

lemma load_edge_batch_fallback:
  assumes g: "graph s = Some g"
    and q: "edge_query_parts E (merge_mode s) rel_type batch = Inr qs"
    and d: "edge_batch_data batch = Inr (first # others)"
    and r: "\<not> store_accepts E (issued s)
              (GraphQuery EdgeBulk g (edge_unwind_query (merge_mode s) rel_type first)
                 (Some (EdgeBatch (first # others))))"
  shows "load_edge_batch E rel_type batch s =
           (Returned, s\<lparr>issued := issued s
              @ GraphQuery EdgeBulk g (edge_unwind_query (merge_mode s) rel_type first)
                  (Some (EdgeBatch (first # others)))
              # map (\<lambda>q. GraphQuery EdgeRow g q None) qs\<rparr>)"
proof -
  let ?q = "edge_unwind_query (merge_mode s) rel_type first"
  let ?ev = "GraphQuery EdgeBulk g ?q (Some (EdgeBatch (first # others)))"
  let ?s1 = "s\<lparr>issued := issued s @ [?ev]\<rparr>"
  have s1: "snd (graph_query E EdgeBulk ?q (Some (EdgeBatch (first # others))) s) = ?s1"
    using g by (rule graph_query_issued)
  have f1: "\<not> fst (graph_query E EdgeBulk ?q (Some (EdgeBatch (first # others))) s)"
    using r graph_query_fst [OF g] by simp
  have g1: "graph ?s1 = Some g" using g by simp
  have fb: "run_fallback E EdgeRow qs ?s1
            = ?s1\<lparr>issued := issued ?s1 @ map (\<lambda>q. GraphQuery EdgeRow g q None) qs\<rparr>"
    using g1 by (rule run_fallback_issued)
  show ?thesis using q d s1 f1 fb by (simp add: load_edge_batch_def Let_def)
qed








theorem edge_bulk_label_decision_witness:
  "graph tenant_a_loader = Some ''g_a''
   \<and> edge_batch_data sample_knows_rows =
       Inr (EdgeRecord (Integer 1) (Integer 2) ''Person'' ''Person'' [(''weight'', Float ''0.5'')]
            # [EdgeRecord (Integer 2) (Integer 1) [] [] [(''weight'', String ''-2.5'')]])
   \<and> (\<exists>rest. issued (snd (load_edge_batch sample_env ''KNOWS'' sample_knows_rows tenant_a_loader)) =
         GraphQuery EdgeBulk ''g_a''
           (CHR 0x0A # replicate 28 (CHR '' '') @ ''UNWIND $batch AS row''
            @ CHR 0x0A # replicate 28 (CHR '' '') @ ''MATCH (a:Person {id: row.source_id})''
            @ CHR 0x0A # replicate 28 (CHR '' '') @ ''MATCH (b:Person {id: row.target_id})''
            @ CHR 0x0A # replicate 28 (CHR '' '') @ ''CREATE (a)-[r:KNOWS]->(b)''
            @ CHR 0x0A # replicate 28 (CHR '' '') @ ''SET r += row.props''
            @ CHR 0x0A # replicate 28 (CHR '' ''))
           (Some (EdgeBatch
              (EdgeRecord (Integer 1) (Integer 2) ''Person'' ''Person'' [(''weight'', Float ''0.5'')]
               # [EdgeRecord (Integer 2) (Integer 1) [] [] [(''weight'', String ''-2.5'')]])))
         # rest)"
proof -
  have g: "graph tenant_a_loader = Some ''g_a''" by (simp add: tenant_a_loader_def)
  have d: "edge_batch_data sample_knows_rows =
       Inr (EdgeRecord (Integer 1) (Integer 2) ''Person'' ''Person'' [(''weight'', Float ''0.5'')]
            # [EdgeRecord (Integer 2) (Integer 1) [] [] [(''weight'', String ''-2.5'')]])"
    by code_simp
  have m: "\<not> merge_mode tenant_a_loader" and i: "issued tenant_a_loader = []"
    by (simp_all add: tenant_a_loader_def)
  show ?thesis
    using edge_bulk_label_decision [OF g d, of sample_env "''KNOWS''"] g d m i
    by (simp add: Let_def)
qed

text \<open>
  C5. With a graph selected, when the store refuses the bulk submission of a batch, the
  batch step does not raise: it sends every per-row query of the batch (one per row
  for nodes, one per surviving row for edges), whatever the store answers to each of
  them, and the loop goes on with the batches that follow. The store is arbitrary.
\<close>

theorem bulk_failure_falls_back_to_rows:
  assumes g: "graph s = Some g"
  shows "(node_query_parts E (merge_mode s) label batch = Inr qs \<longrightarrow>
           (\<exists>ds. node_batch_data batch = Inr ds \<and> length qs = length batch \<and>
              (\<not> store_accepts E (issued s)
                   (GraphQuery NodeBulk g (node_unwind_query (merge_mode s) label) (Some (NodeBatch ds)))
               \<longrightarrow> run_each (load_node_batch E label) (batch # later) s =
                   run_each (load_node_batch E label) later
                     (s\<lparr>issued := issued s
                        @ GraphQuery NodeBulk g (node_unwind_query (merge_mode s) label) (Some (NodeBatch ds))
                        # map (\<lambda>q. GraphQuery NodeRow g q None) qs\<rparr>))))
       \<and> (edge_batch_data ebatch = Inr (first # others) \<longrightarrow>
           (\<exists>eqs. edge_query_parts E (merge_mode s) rel_type ebatch = Inr eqs
              \<and> length eqs = length (filter (\<lambda>r. \<not> lacks_endpoint r) ebatch) \<and>
              (\<not> store_accepts E (issued s)
                   (GraphQuery EdgeBulk g (edge_unwind_query (merge_mode s) rel_type first)
                      (Some (EdgeBatch (first # others))))
               \<longrightarrow> run_each (load_edge_batch E rel_type) (ebatch # elater) s =
                   run_each (load_edge_batch E rel_type) elater
                     (s\<lparr>issued := issued s
                        @ GraphQuery EdgeBulk g (edge_unwind_query (merge_mode s) rel_type first)
                            (Some (EdgeBatch (first # others)))
                        # map (\<lambda>q. GraphQuery EdgeRow g q None) eqs\<rparr>))))"
proof (intro conjI impI)
  assume q: "node_query_parts E (merge_mode s) label batch = Inr qs"
  then obtain ds where d: "node_batch_data batch = Inr ds" and len: "length qs = length batch"
    using node_query_parts_imp_data by blast
  have "\<not> store_accepts E (issued s)
            (GraphQuery NodeBulk g (node_unwind_query (merge_mode s) label) (Some (NodeBatch ds)))
        \<longrightarrow> run_each (load_node_batch E label) (batch # later) s =
            run_each (load_node_batch E label) later
              (s\<lparr>issued := issued s
                 @ GraphQuery NodeBulk g (node_unwind_query (merge_mode s) label) (Some (NodeBatch ds))
                 # map (\<lambda>q. GraphQuery NodeRow g q None) qs\<rparr>)"
    using load_node_batch_fallback [OF g q d] by simp
  with d len show "\<exists>ds. node_batch_data batch = Inr ds \<and> length qs = length batch \<and>
              (\<not> store_accepts E (issued s)
                   (GraphQuery NodeBulk g (node_unwind_query (merge_mode s) label) (Some (NodeBatch ds)))
               \<longrightarrow> run_each (load_node_batch E label) (batch # later) s =
                   run_each (load_node_batch E label) later
                     (s\<lparr>issued := issued s
                        @ GraphQuery NodeBulk g (node_unwind_query (merge_mode s) label) (Some (NodeBatch ds))
                        # map (\<lambda>q. GraphQuery NodeRow g q None) qs\<rparr>))"
    by blast
next
  assume d: "edge_batch_data ebatch = Inr (first # others)"
  obtain eqs where q: "edge_query_parts E (merge_mode s) rel_type ebatch = Inr eqs"
      and len: "length eqs = length (filter (\<lambda>r. \<not> lacks_endpoint r) ebatch)"
    using edge_query_parts_total by blast
  have "\<not> store_accepts E (issued s)
            (GraphQuery EdgeBulk g (edge_unwind_query (merge_mode s) rel_type first)
               (Some (EdgeBatch (first # others))))
        \<longrightarrow> run_each (load_edge_batch E rel_type) (ebatch # elater) s =
            run_each (load_edge_batch E rel_type) elater
              (s\<lparr>issued := issued s
                 @ GraphQuery EdgeBulk g (edge_unwind_query (merge_mode s) rel_type first)
                     (Some (EdgeBatch (first # others)))
                 # map (\<lambda>q. GraphQuery EdgeRow g q None) eqs\<rparr>)"
    using load_edge_batch_fallback [OF g q d] by simp
  with q len show "\<exists>eqs. edge_query_parts E (merge_mode s) rel_type ebatch = Inr eqs
              \<and> length eqs = length (filter (\<lambda>r. \<not> lacks_endpoint r) ebatch) \<and>
              (\<not> store_accepts E (issued s)
                   (GraphQuery EdgeBulk g (edge_unwind_query (merge_mode s) rel_type first)
                      (Some (EdgeBatch (first # others))))
               \<longrightarrow> run_each (load_edge_batch E rel_type) (ebatch # elater) s =
                   run_each (load_edge_batch E rel_type) elater
                     (s\<lparr>issued := issued s
                        @ GraphQuery EdgeBulk g (edge_unwind_query (merge_mode s) rel_type first)
                            (Some (EdgeBatch (first # others)))
                        # map (\<lambda>q. GraphQuery EdgeRow g q None) eqs\<rparr>))"
    by blast
qed

theorem bulk_failure_falls_back_to_rows_witness:
  "graph tenant_a_loader = Some ''g_a''
   \<and> (\<exists>qs ds. node_query_parts refusing_env (merge_mode tenant_a_loader) ''Person'' sample_person_rows = Inr qs
        \<and> node_batch_data sample_person_rows = Inr ds
        \<and> length qs = 2
        \<and> \<not> store_accepts refusing_env (issued tenant_a_loader)
              (GraphQuery NodeBulk ''g_a'' (node_unwind_query (merge_mode tenant_a_loader) ''Person'')
                 (Some (NodeBatch ds)))
        \<and> run_each (load_node_batch refusing_env ''Person'') [sample_person_rows] tenant_a_loader =
            (Returned, tenant_a_loader\<lparr>issued := issued tenant_a_loader
               @ GraphQuery NodeBulk ''g_a'' (node_unwind_query (merge_mode tenant_a_loader) ''Person'')
                   (Some (NodeBatch ds))
               # map (\<lambda>q. GraphQuery NodeRow ''g_a'' q None) qs\<rparr>))
   \<and> (\<exists>eqs first others. edge_batch_data sample_knows_rows = Inr (first # others)
        \<and> edge_query_parts refusing_env (merge_mode tenant_a_loader) ''KNOWS'' sample_knows_rows = Inr eqs
        \<and> length eqs = 2
        \<and> run_each (load_edge_batch refusing_env ''KNOWS'') [sample_knows_rows] tenant_a_loader =
            (Returned, tenant_a_loader\<lparr>issued := issued tenant_a_loader
               @ GraphQuery EdgeBulk ''g_a'' (edge_unwind_query (merge_mode tenant_a_loader) ''KNOWS'' first)
                   (Some (EdgeBatch (first # others)))
               # map (\<lambda>q. GraphQuery EdgeRow ''g_a'' q None) eqs\<rparr>))"
proof -
  have g: "graph tenant_a_loader = Some ''g_a''" by (simp add: tenant_a_loader_def)
  have refuse: "\<And>h ev. \<not> store_accepts refusing_env h ev" by (simp add: refusing_env_def)
  have "(case node_query_parts refusing_env (merge_mode tenant_a_loader) ''Person'' sample_person_rows of
           Inl e \<Rightarrow> False | Inr qs \<Rightarrow> True)"
    by code_simp
  then obtain qs where
    q: "node_query_parts refusing_env (merge_mode tenant_a_loader) ''Person'' sample_person_rows = Inr qs"
    by (auto split: sum.splits)
  have d: "edge_batch_data sample_knows_rows =
       Inr (EdgeRecord (Integer 1) (Integer 2) ''Person'' ''Person'' [(''weight'', Float ''0.5'')]
            # [EdgeRecord (Integer 2) (Integer 1) [] [] [(''weight'', String ''-2.5'')]])"
    by code_simp
  have n2: "length sample_person_rows = 2" by (simp add: sample_person_rows_def)
  have e2: "length (filter (\<lambda>r. \<not> lacks_endpoint r) sample_knows_rows) = 2" by code_simp
  note main = bulk_failure_falls_back_to_rows [OF g, of refusing_env "''Person''" sample_person_rows qs "[]"
      sample_knows_rows "EdgeRecord (Integer 1) (Integer 2) ''Person'' ''Person'' [(''weight'', Float ''0.5'')]"
      "[EdgeRecord (Integer 2) (Integer 1) [] [] [(''weight'', String ''-2.5'')]]" "''KNOWS''" "[]"]
  from main q obtain ds where ds: "node_batch_data sample_person_rows = Inr ds"
      and lq: "length qs = length sample_person_rows"
      and nrun: "run_each (load_node_batch refusing_env ''Person'') [sample_person_rows] tenant_a_loader =
            run_each (load_node_batch refusing_env ''Person'') []
              (tenant_a_loader\<lparr>issued := issued tenant_a_loader
               @ GraphQuery NodeBulk ''g_a'' (node_unwind_query (merge_mode tenant_a_loader) ''Person'')
                   (Some (NodeBatch ds))
               # map (\<lambda>q. GraphQuery NodeRow ''g_a'' q None) qs\<rparr>)"
    using refuse by blast
  from main d obtain eqs where
      eq: "edge_query_parts refusing_env (merge_mode tenant_a_loader) ''KNOWS'' sample_knows_rows = Inr eqs"
      and le: "length eqs = length (filter (\<lambda>r. \<not> lacks_endpoint r) sample_knows_rows)"
      and erun: "run_each (load_edge_batch refusing_env ''KNOWS'') [sample_knows_rows] tenant_a_loader =
            run_each (load_edge_batch refusing_env ''KNOWS'') []
              (tenant_a_loader\<lparr>issued := issued tenant_a_loader
               @ GraphQuery EdgeBulk ''g_a''
                   (edge_unwind_query (merge_mode tenant_a_loader) ''KNOWS''
                      (EdgeRecord (Integer 1) (Integer 2) ''Person'' ''Person'' [(''weight'', Float ''0.5'')]))
                   (Some (EdgeBatch
                      (EdgeRecord (Integer 1) (Integer 2) ''Person'' ''Person'' [(''weight'', Float ''0.5'')]
                       # [EdgeRecord (Integer 2) (Integer 1) [] [] [(''weight'', String ''-2.5'')]])))
               # map (\<lambda>q. GraphQuery EdgeRow ''g_a'' q None) eqs\<rparr>)"
    using refuse by blast
  have node: "\<exists>qs ds. node_query_parts refusing_env (merge_mode tenant_a_loader) ''Person'' sample_person_rows = Inr qs
        \<and> node_batch_data sample_person_rows = Inr ds
        \<and> length qs = 2
        \<and> \<not> store_accepts refusing_env (issued tenant_a_loader)
              (GraphQuery NodeBulk ''g_a'' (node_unwind_query (merge_mode tenant_a_loader) ''Person'')
                 (Some (NodeBatch ds)))
        \<and> run_each (load_node_batch refusing_env ''Person'') [sample_person_rows] tenant_a_loader =
            (Returned, tenant_a_loader\<lparr>issued := issued tenant_a_loader
               @ GraphQuery NodeBulk ''g_a'' (node_unwind_query (merge_mode tenant_a_loader) ''Person'')
                   (Some (NodeBatch ds))
               # map (\<lambda>q. GraphQuery NodeRow ''g_a'' q None) qs\<rparr>)"
    using q ds lq n2 refuse nrun by auto
  have edge: "\<exists>eqs first others. edge_batch_data sample_knows_rows = Inr (first # others)
        \<and> edge_query_parts refusing_env (merge_mode tenant_a_loader) ''KNOWS'' sample_knows_rows = Inr eqs
        \<and> length eqs = 2
        \<and> run_each (load_edge_batch refusing_env ''KNOWS'') [sample_knows_rows] tenant_a_loader =
            (Returned, tenant_a_loader\<lparr>issued := issued tenant_a_loader
               @ GraphQuery EdgeBulk ''g_a'' (edge_unwind_query (merge_mode tenant_a_loader) ''KNOWS'' first)
                   (Some (EdgeBatch (first # others)))
               # map (\<lambda>q. GraphQuery EdgeRow ''g_a'' q None) eqs\<rparr>)"
    using d eq le e2 erun by auto
  show ?thesis using g node edge by blast
qed

section \<open>Payload keys and the constraint key\<close>

text \<open>
  What does hold of the payloads: a key of a node record's properties is the name of a
  field other than \<^verbatim>\<open>id\<close> and \<^verbatim>\<open>labels\<close> whose text is not empty; a key of an edge
  record's properties is the cleaned name of such a field outside the reserved names;
  and no stored value is \<open>Null\<close>.
\<close>

lemma dict_set_keys: "fst ` set (dict_set key v kvs) = insert key (fst ` set kvs)"
proof (induction kvs)
  case Nil
  then show ?case by simp
next
  case (Cons kw kvs)
  obtain k w where kw: "kw = (k, w)" by (cases kw)
  show ?case
  proof (cases "k = key")
    case True
    then show ?thesis using kw by simp
  next
    case False
    then show ?thesis using kw Cons by (simp add: insert_commute)
  qed
qed

lemma dict_set_values: "snd ` set (dict_set key v kvs) \<subseteq> insert v (snd ` set kvs)"
proof (induction kvs)
  case Nil
  then show ?case by simp
next
  case (Cons kw kvs)
  obtain k w where kw: "kw = (k, w)" by (cases kw)
  show ?case
  proof (cases "k = key")
    case True
    then show ?thesis using kw by auto
  next
    case False
    then show ?thesis using kw Cons by auto
  qed
qed

lemma infer_node_value_not_null: "v \<noteq> [] \<Longrightarrow> infer_node_value v \<noteq> Inr Null"
  by (simp add: infer_node_value_def py_float_def Let_def)

lemma infer_edge_value_not_null: "v \<noteq> [] \<Longrightarrow> infer_edge_value v \<noteq> Inr Null"
  by (simp add: infer_edge_value_def py_float_def Let_def)

lemma node_bulk_properties_keys:
  "node_bulk_properties r acc = Inr p \<Longrightarrow>
   fst ` set p \<subseteq> fst ` set acc
       \<union> {key. \<exists>v. (key, v) \<in> set r \<and> v \<noteq> [] \<and> key \<noteq> ''id'' \<and> key \<noteq> ''labels''}"
proof (induction r arbitrary: acc)
  case Nil
  then show ?case by simp
next
  case (Cons kv r)
  obtain key v where kv: "kv = (key, v)" by (cases kv)
  show ?case
  proof (cases "key \<notin> set [''id'', ''labels''] \<and> v \<noteq> []")
    case True
    with Cons.prems kv obtain tv where "infer_node_value v = Inr tv"
        and rest: "node_bulk_properties r (dict_set key tv acc) = Inr p"
      by (auto split: sum.splits)
    from Cons.IH [OF rest] show ?thesis using kv True by (auto simp: dict_set_keys)
  next
    case False
    with Cons.prems kv have "node_bulk_properties r acc = Inr p" by (auto split: if_splits)
    from Cons.IH [OF this] show ?thesis using kv by auto
  qed
qed

lemma node_bulk_properties_values:
  "node_bulk_properties r acc = Inr p \<Longrightarrow> Null \<notin> snd ` set acc \<Longrightarrow> Null \<notin> snd ` set p"
proof (induction r arbitrary: acc)
  case Nil
  then show ?case by simp
next
  case (Cons kv r)
  obtain key v where kv: "kv = (key, v)" by (cases kv)
  show ?case
  proof (cases "key \<notin> set [''id'', ''labels''] \<and> v \<noteq> []")
    case True
    with Cons.prems(1) kv obtain tv where tv: "infer_node_value v = Inr tv"
        and rest: "node_bulk_properties r (dict_set key tv acc) = Inr p"
      by (auto split: sum.splits)
    have "tv \<noteq> Null" using tv True infer_node_value_not_null by auto
    then have "Null \<notin> snd ` set (dict_set key tv acc)"
      using Cons.prems(2) dict_set_values [of key tv acc] by auto
    from Cons.IH [OF rest this] show ?thesis .
  next
    case False
    with Cons.prems(1) kv have "node_bulk_properties r acc = Inr p" by (auto split: if_splits)
    from Cons.IH [OF this Cons.prems(2)] show ?thesis .
  qed
qed

lemma node_payload_keys:
  assumes "node_record_of r = Inr d"
  shows "''id'' \<notin> fst ` set (nr_props d)" and "''labels'' \<notin> fst ` set (nr_props d)"
    and "Null \<notin> snd ` set (nr_props d)"
proof -
  from assms obtain p where p: "node_bulk_properties r [] = Inr p" and d: "nr_props d = p"
    by (auto simp: node_record_of_def split: sum.splits)
  from node_bulk_properties_keys [OF p]
  show "''id'' \<notin> fst ` set (nr_props d)" and "''labels'' \<notin> fst ` set (nr_props d)"
    using d by auto
  from node_bulk_properties_values [OF p] show "Null \<notin> snd ` set (nr_props d)"
    using d by simp
qed

lemma edge_properties_keys:
  "edge_properties r acc = Inr p \<Longrightarrow>
   fst ` set p \<subseteq> fst ` set acc
       \<union> clean_key ` {key. \<exists>v. (key, v) \<in> set r \<and> v \<noteq> [] \<and> key \<notin> set edge_reserved}"
proof (induction r arbitrary: acc)
  case Nil
  then show ?case by simp
next
  case (Cons kv r)
  obtain key v where kv: "kv = (key, v)" by (cases kv)
  show ?case
  proof (cases "key \<notin> set edge_reserved \<and> v \<noteq> []")
    case True
    with Cons.prems kv obtain tv where "infer_edge_value v = Inr tv"
        and rest: "edge_properties r (dict_set (clean_key key) tv acc) = Inr p"
      by (auto split: sum.splits)
    from Cons.IH [OF rest] show ?thesis using kv True by (auto simp: dict_set_keys)
  next
    case False
    with Cons.prems kv have "edge_properties r acc = Inr p" by (auto split: if_splits)
    from Cons.IH [OF this] show ?thesis using kv by auto
  qed
qed

lemma edge_properties_values:
  "edge_properties r acc = Inr p \<Longrightarrow> Null \<notin> snd ` set acc \<Longrightarrow> Null \<notin> snd ` set p"
proof (induction r arbitrary: acc)
  case Nil
  then show ?case by simp
next
  case (Cons kv r)
  obtain key v where kv: "kv = (key, v)" by (cases kv)
  show ?case
  proof (cases "key \<notin> set edge_reserved \<and> v \<noteq> []")
    case True
    with Cons.prems(1) kv obtain tv where tv: "infer_edge_value v = Inr tv"
        and rest: "edge_properties r (dict_set (clean_key key) tv acc) = Inr p"
      by (auto split: sum.splits)
    have "tv \<noteq> Null" using tv True infer_edge_value_not_null by auto
    then have "Null \<notin> snd ` set (dict_set (clean_key key) tv acc)"
      using Cons.prems(2) dict_set_values [of "clean_key key" tv acc] by auto
    from Cons.IH [OF rest this] show ?thesis .
  next
    case False
    with Cons.prems(1) kv have "edge_properties r acc = Inr p" by (auto split: if_splits)
    from Cons.IH [OF this Cons.prems(2)] show ?thesis .
  qed
qed

text \<open>
  The key of the constraint command is the \<^verbatim>\<open>graph_name\<close> field, and a tenant iteration
  leaves that field as it was.
\<close>

lemma constraint_command_key:
  "event_target (RawCommand site (constraint_command_args gname entity_type label prop_list))
     = Some gname"
  by (simp add: constraint_command_args_def)

lemma load_tenant_graph_name: "graph_name (load_tenant E batch_size tenant_dir s) = graph_name s"
proof -
  define s2 where "s2 = s\<lparr>graph := Some (graph_name s @ ''_'' @ replace_all ''tenant_'' '''' tenant_dir),
                          csv_dir := path_join (csv_dir s) tenant_dir\<rparr>"
  obtain out s3 where r: "load_single_graph_csvs E batch_size s2 = (out, s3)"
    by (cases "load_single_graph_csvs E batch_size s2")
  have "graph_name s3 = graph_name s2"
    using emits_frame(2) [OF load_single_graph_csvs_emits [of s2 E batch_size]] r by simp
  moreover have "load_tenant E batch_size tenant_dir s = s3\<lparr>csv_dir := csv_dir s\<rparr>"
    unfolding load_tenant_def Let_def s2_def [symmetric]
    using r by (cases out) simp_all
  ultimately show ?thesis by (simp add: s2_def)
qed

end
